theory Spec2Isabelle
  imports Complex_Main "HOL-Library.Word" "HOL-Library.Log_Nat" "HOL-Library.AList"
begin

section \<open>Bytes and the byte buffer\<close>

text \<open>
  The issuer core of \<^verbatim>\<open>src/private-state-token.js\<close> works on arrays of bytes.
  A byte is an 8-bit word, a byte string a list of bytes, and JavaScript's
  \<^verbatim>\<open>BigInt\<close> scalars (always decoded from unsigned big-endian bytes) are naturals.
\<close>

type_synonym byte = "8 word"
type_synonym bytes = "byte list"

datatype error = DecodeError | InvalidPoint | InvalidScalar | ZeroPoint

text \<open>
  Modelled from the spec: \<^verbatim>\<open>DataBuffer\<close> of \<^verbatim>\<open>utils.js\<close> is not part of the
  sources at hand. The spec fixes what it does: all multi-byte integers are big-endian,
  scalars are fixed-width big-endian values, and a short read is a hard parse error.
  \<^verbatim>\<open>numberToBytes n len\<close> is the \<open>len\<close>-byte big-endian encoding of \<open>n\<close>; a value
  that does not fit keeps its low \<open>len\<close> bytes.
\<close>

fun numberToBytes :: "nat \<Rightarrow> nat \<Rightarrow> bytes" where
  "numberToBytes n 0 = []"
| "numberToBytes n (Suc len) = numberToBytes (n div 256) len @ [of_nat n]"

text \<open>
  Modelled from the spec: \<^verbatim>\<open>DataBuffer.bytesToNumber\<close> of \<^verbatim>\<open>utils.js\<close>, the number
  a byte string stands for in big-endian order.
\<close>

definition bytesToNumber :: "bytes \<Rightarrow> nat" where
  "bytesToNumber bs = foldl (\<lambda>acc b. acc * 256 + unat b) 0 bs"

text \<open>
  Modelled from the spec: \<^verbatim>\<open>DataBuffer.stringToBytes\<close> of \<^verbatim>\<open>utils.js\<close>, one byte
  per character (the transcripts start with the bytes of an ASCII label).
\<close>

definition stringToBytes :: "string \<Rightarrow> bytes" where
  "stringToBytes s = map (\<lambda>c. of_nat (of_char c)) s"

text \<open>
  Modelled from the spec: the writers of \<^verbatim>\<open>DataBuffer\<close> append to the buffer, so a
  message under construction is the concatenation of what was written.
\<close>

definition writeInt :: "nat \<Rightarrow> nat \<Rightarrow> bytes" where
  "writeInt v len = numberToBytes v len"

text \<open>Modelled from the spec: \<^verbatim>\<open>DataBuffer.writeInt32\<close>, a big-endian \<open>u32\<close>.\<close>

definition writeInt32 :: "nat \<Rightarrow> bytes" where
  "writeInt32 v = numberToBytes v 4"

text \<open>Modelled from the spec: \<^verbatim>\<open>DataBuffer.writeString\<close>, the bytes of the string.\<close>

definition writeString :: "string \<Rightarrow> bytes" where
  "writeString s = stringToBytes s"

text \<open>
  Modelled from the spec: the readers of \<^verbatim>\<open>DataBuffer\<close>. The reading position is
  kept as the list of bytes not yet consumed; each reader returns what it read and
  the rest, or \<open>DecodeError\<close> on a short read.
\<close>

definition readBytes :: "nat \<Rightarrow> bytes \<Rightarrow> error + (bytes \<times> bytes)" where
  "readBytes len buf =
     (if length buf < len then Inl DecodeError else Inr (take len buf, drop len buf))"

text \<open>
  Modelled from the spec: \<^verbatim>\<open>DataBuffer.readInt\<close>, a big-endian unsigned integer of
  \<open>len\<close> bytes.
\<close>

definition readInt :: "nat \<Rightarrow> bytes \<Rightarrow> error + (nat \<times> bytes)" where
  "readInt len buf =
     (case readBytes len buf of
        Inl e \<Rightarrow> Inl e
      | Inr (bs, rest) \<Rightarrow> Inr (bytesToNumber bs, rest))"

section \<open>The curve library and the codecs\<close>

text \<open>
  \<^verbatim>\<open>VOPRF_P384.ORDER\<close> is \<^verbatim>\<open>ec.CURVE.n\<close>, the order of P-384; the source quotes
  its value next to the field.
\<close>

definition ORDER :: nat where
  "ORDER = 39402006196394479212279040100143613805079739270465446667946905279627659399113263569398956308152294913554433653942643"

definition BYTES :: nat where
  "BYTES = 384 div 8"

definition NONCE_LENGTH :: nat where
  "NONCE_LENGTH = 64"

datatype hash_alg = sha384 | sha512

text \<open>The options object handed to \<^verbatim>\<open>hash_to_field\<close>.\<close>

record h2f_config =
  h_DST :: string
  h_m :: nat
  h_p :: nat
  h_k :: nat
  h_expand :: string
  h_hash :: hash_alg

text \<open>
  The external collaborators are parameters of the model. \<open>'p\<close> is the type of group
  elements (\<^verbatim>\<open>ec.ProjectivePoint\<close>); two points are equal when they are the same
  group element, which is what the library's \<^verbatim>\<open>equals\<close> decides.
  \<^item> \<open>fromHex\<close>: \<^verbatim>\<open>ProjectivePoint.fromHex\<close>, \<open>None\<close> when it throws;
  \<^item> \<open>toRawBytes\<close>: the uncompressed encoding \<^verbatim>\<open>toRawBytes(false)\<close> yields for a
    point other than the identity;
  \<^item> \<open>point_add\<close>, \<open>point_mul\<close>, \<open>ZERO\<close>, \<open>BASE\<close>: the group law, scalar
    multiplication, the identity and the generator;
  \<^item> \<open>xmd_os2ip\<close>: the integer read from the bytes \<^verbatim>\<open>expand_message_xmd\<close> yields
    for a message under an options object, before reduction;
  \<^item> \<open>hashToCurve\<close>: the library's \<^verbatim>\<open>hashToCurve\<close> for a hash and a DST;
  \<^item> \<open>b64encode\<close>, \<open>b64decode\<close>: the \<^verbatim>\<open>Base64\<close> codec of \<^verbatim>\<open>utils.js\<close>;
  \<^item> \<open>numberToString\<close>: JavaScript's conversion of a number to a string, as a
    template literal applies it (decimal digits, exponent notation from \<open>10\<^sup>2\<^sup>1\<close> on).
\<close>

record 'p env =
  fromHex :: "bytes \<Rightarrow> 'p option"
  toRawBytes :: "'p \<Rightarrow> bytes"
  point_add :: "'p \<Rightarrow> 'p \<Rightarrow> 'p"
  point_mul :: "'p \<Rightarrow> nat \<Rightarrow> 'p"
  ZERO :: "'p"
  BASE :: "'p"
  xmd_os2ip :: "h2f_config \<Rightarrow> bytes \<Rightarrow> nat"
  hashToCurve :: "hash_alg \<Rightarrow> string \<Rightarrow> bytes \<Rightarrow> 'p"
  b64encode :: "bytes \<Rightarrow> string"
  b64decode :: "string \<Rightarrow> bytes"
  numberToString :: "nat \<Rightarrow> string"

text \<open>
  \<^verbatim>\<open>point.multiply(scalar)\<close> of the library checks its argument before it
  multiplies: the scalar must be a \<^verbatim>\<open>bigint\<close> with \<open>0 < scalar < n\<close>, and anything
  else (also \<^verbatim>\<open>undefined\<close>, here \<open>None\<close>) is an exception.
\<close>

definition multiply :: "'p env \<Rightarrow> 'p \<Rightarrow> nat option \<Rightarrow> error + 'p" where
  "multiply L P scalar =
     (case scalar of
        None \<Rightarrow> Inl InvalidScalar
      | Some s \<Rightarrow> if 0 < s \<and> s < ORDER then Inr (point_mul L P s) else Inl InvalidScalar)"

text \<open>
  \<^verbatim>\<open>point.toRawBytes(false)\<close> of the library asserts that the point is valid before it
  encodes it, and throws (\<^verbatim>\<open>bad point: ZERO\<close>) for the identity.
\<close>

definition Point_toRawBytes :: "'p env \<Rightarrow> 'p \<Rightarrow> error + bytes" where
  "Point_toRawBytes L P = (if P = ZERO L then Inl ZeroPoint else Inr (toRawBytes L P))"

text \<open>
  \<^verbatim>\<open>hash_to_field(msg, 1, options)[0][0]\<close>: the single field element, reduced
  modulo \<open>options.p\<close>.
\<close>

definition hash_to_field :: "'p env \<Rightarrow> bytes \<Rightarrow> h2f_config \<Rightarrow> nat" where
  "hash_to_field L msg options = xmd_os2ip L options msg mod h_p options"

section \<open>Points\<close>

text \<open>
  \<^verbatim>\<open>class ECPoint\<close> keeps the X9.62 bytes (\<^verbatim>\<open>#value\<close>) and the library point
  (\<^verbatim>\<open>#point\<close>). Its constructor takes either; built from bytes it throws when the
  library rejects them, built from a point it throws when the library refuses to
  encode the point.
\<close>

record 'p ECPoint =
  ec_value :: bytes
  ec_point :: "'p"

definition ECPoint_of_bytes :: "'p env \<Rightarrow> bytes \<Rightarrow> error + 'p ECPoint" where
  "ECPoint_of_bytes L v =
     (case fromHex L v of
        None \<Rightarrow> Inl InvalidPoint
      | Some P \<Rightarrow> Inr \<lparr>ec_value = v, ec_point = P\<rparr>)"

definition ECPoint_of_point :: "'p env \<Rightarrow> 'p \<Rightarrow> error + 'p ECPoint" where
  "ECPoint_of_point L P =
     (case Point_toRawBytes L P of
        Inl e \<Rightarrow> Inl e
      | Inr v \<Rightarrow> Inr \<lparr>ec_value = v, ec_point = P\<rparr>)"

definition ECPoint_toBytes :: "'p ECPoint \<Rightarrow> bytes" where
  "ECPoint_toBytes e = ec_value e"

definition ECPoint_multiply :: "'p env \<Rightarrow> 'p ECPoint \<Rightarrow> nat option \<Rightarrow> error + 'p ECPoint" where
  "ECPoint_multiply L e scalar =
     (case multiply L (ec_point e) scalar of
        Inl x \<Rightarrow> Inl x
      | Inr Q \<Rightarrow> ECPoint_of_point L Q)"

section \<open>Issue requests\<close>

record 'p IssueRequest =
  nonces :: "'p ECPoint list"

definition IssueRequest_count :: "'p IssueRequest \<Rightarrow> nat" where
  "IssueRequest_count r = length (nonces r)"

text \<open>
  The loop of \<^verbatim>\<open>IssueRequest.from\<close>: while fewer than \<open>count\<close> nonces have been
  collected, read \<open>2 * BYTES + 1 = 97\<close> bytes and try to build a point; a point the
  library rejects is caught, nothing is pushed, and the loop goes round again.
\<close>

function from_loop ::
  "'p env \<Rightarrow> nat \<Rightarrow> bytes \<Rightarrow> 'p ECPoint list \<Rightarrow> error + 'p ECPoint list" where
  "from_loop L count buf acc =
     (if length acc < count then
        (case readBytes (Suc (2 * BYTES)) buf of
           Inl e \<Rightarrow> Inl e
         | Inr (v, rest) \<Rightarrow>
             (case ECPoint_of_bytes L v of
                Inl e \<Rightarrow> from_loop L count rest acc
              | Inr ecPoint \<Rightarrow> from_loop L count rest (acc @ [ecPoint])))
      else Inr acc)"
  by pat_completeness auto
termination
  by (relation "measure (\<lambda>(L, count, buf, acc). length buf)")
     (auto simp: readBytes_def split: if_splits)

declare from_loop.simps [simp del]

text \<open>
  \<^verbatim>\<open>IssueRequest.from\<close>. The closing \<^verbatim>\<open>filter(n => n !== null)\<close> keeps every
  element, since the loop never pushes \<^verbatim>\<open>null\<close>.
\<close>

definition IssueRequest_from :: "'p env \<Rightarrow> string \<Rightarrow> error + 'p IssueRequest" where
  "IssueRequest_from L s =
     (case readInt 2 (b64decode L s) of
        Inl e \<Rightarrow> Inl e
      | Inr (count, rest) \<Rightarrow>
          (case from_loop L count rest [] of
             Inl e \<Rightarrow> Inl e
           | Inr ns \<Rightarrow> Inr \<lparr>nonces = ns\<rparr>))"

definition IssueRequest_toBytes :: "'p IssueRequest \<Rightarrow> bytes" where
  "IssueRequest_toBytes r =
     writeInt (IssueRequest_count r) 2 @ concat (map ECPoint_toBytes (nonces r))"

definition IssueRequest_toString :: "'p env \<Rightarrow> 'p IssueRequest \<Rightarrow> string" where
  "IssueRequest_toString L r = b64encode L (IssueRequest_toBytes r)"

section \<open>Keys\<close>

text \<open>
  \<^verbatim>\<open>PrivateStateTokenSecretKey\<close> and \<^verbatim>\<open>PrivateStateTokenPublicKey\<close>. The public
  key keeps its 97 bytes as one big integer (the field is called \<^verbatim>\<open>scalar\<close> in
  the source as well).
\<close>

record PrivateStateTokenSecretKey =
  sk_id :: nat
  sk_scalar :: nat
  sk_expiry :: nat

record PrivateStateTokenPublicKey =
  pk_id :: nat
  pk_scalar :: nat
  pk_expiry :: nat

definition SecretKey_toBytes :: "PrivateStateTokenSecretKey \<Rightarrow> bytes" where
  "SecretKey_toBytes sk = numberToBytes (sk_scalar sk) 48"

definition PublicKey_from :: "nat \<Rightarrow> bytes \<Rightarrow> nat \<Rightarrow> PrivateStateTokenPublicKey" where
  "PublicKey_from i v expiry = \<lparr>pk_id = i, pk_scalar = bytesToNumber v, pk_expiry = expiry\<rparr>"

definition PublicKey_fromXY :: "nat \<Rightarrow> bytes \<Rightarrow> bytes \<Rightarrow> nat \<Rightarrow> PrivateStateTokenPublicKey" where
  "PublicKey_fromXY i x y expiry = PublicKey_from i ([4] @ x @ y) expiry"

definition PublicKey_toBytes :: "PrivateStateTokenPublicKey \<Rightarrow> bytes" where
  "PublicKey_toBytes pk = numberToBytes (pk_scalar pk) (BYTES * 2 + 1)"

record PrivateStateTokenKeyPair =
  kp_id :: nat
  publicKey :: PrivateStateTokenPublicKey
  secretKey :: PrivateStateTokenSecretKey
  kp_expiry :: nat

text \<open>
  \<^verbatim>\<open>Math.ceil(Math.log10(x))\<close> for a positive integer \<open>x\<close>, computed on the
  integers: the least \<open>d\<close> with \<open>x \<le> 10 ^ d\<close>, which is the number of decimal
  digits of \<open>x - 1\<close>. This is the value over the real numbers. The source computes in
  double precision: \<^verbatim>\<open>Math.log10\<close> is exact at the powers of ten, where the two
  agree, and may round down to an integer just above one (at \<open>10\<^sup>1\<^sup>5 + 1\<close> the source
  has 15 where the real value is 16).
\<close>

definition ceil_log10 :: "nat \<Rightarrow> nat" where
  "ceil_log10 x = floorlog 10 (x - 1)"

text \<open>
  The "quick sanitation" line of the constructor:
  \<^verbatim>\<open>expiry * 10 ** (Math.ceil(Math.max(16 - Math.ceil(Math.log10(expiry)), 0) / 3) * 3)\<close>,
  over exact numbers. The product of the source is a double, so it is this product
  where it is below \<open>2\<^sup>5\<^sup>3\<close> or otherwise representable (as \<open>10\<^sup>1\<^sup>8\<close> is), and the
  nearest double elsewhere.
\<close>

definition sanitize_exponent :: "nat \<Rightarrow> nat" where
  "sanitize_exponent expiry =
     nat \<lceil>real_of_int (max (16 - int (ceil_log10 expiry)) 0) / 3\<rceil> * 3"

definition sanitize_expiry :: "nat \<Rightarrow> nat" where
  "sanitize_expiry expiry = expiry * 10 ^ sanitize_exponent expiry"

text \<open>
  The constructor of \<^verbatim>\<open>PrivateStateTokenKeyPair\<close>. An absent or zero \<^verbatim>\<open>id\<close> or
  \<^verbatim>\<open>expiry\<close> is falsy and is \<open>0\<close> here; \<open>now\<close> is \<^verbatim>\<open>Date.now()\<close>. Assigning
  \<^verbatim>\<open>this.expiry\<close> goes through the setter, which writes both keys as well.
\<close>

definition KeyPair_new ::
  "nat \<Rightarrow> nat \<Rightarrow> PrivateStateTokenPublicKey \<Rightarrow> PrivateStateTokenSecretKey \<Rightarrow> nat
     \<Rightarrow> PrivateStateTokenKeyPair" where
  "KeyPair_new now i pk sk expiry =
     (let i' = (if i \<noteq> 0 then i else if sk_id sk \<noteq> 0 then sk_id sk else 0);
          e0 = (if expiry \<noteq> 0 then expiry
                else if sk_expiry sk \<noteq> 0 then sk_expiry sk
                else if pk_expiry pk \<noteq> 0 then pk_expiry pk
                else now + 90 * 24 * 60 * 60 * 1000);
          e = sanitize_expiry e0
      in \<lparr>kp_id = i',
          publicKey = pk\<lparr>pk_expiry := e\<rparr>,
          secretKey = sk\<lparr>sk_expiry := e\<rparr>,
          kp_expiry = e\<rparr>)"

section \<open>Responses and redemption requests\<close>

record 'p IssueResponse =
  ir_keyID :: nat
  ir_signed :: "'p ECPoint list"
  ir_proof :: bytes

definition IssueResponse_issued :: "'p IssueResponse \<Rightarrow> nat" where
  "IssueResponse_issued r = length (ir_signed r)"

definition IssueResponse_toBytes :: "'p IssueResponse \<Rightarrow> bytes" where
  "IssueResponse_toBytes r =
     writeInt (IssueResponse_issued r) 2 @ writeInt (ir_keyID r) 4
       @ concat (map ECPoint_toBytes (ir_signed r))
       @ writeInt (length (ir_proof r)) 2 @ ir_proof r"

record 'p RedeemRequest =
  rq_keyID :: nat
  rq_nonce :: bytes
  rq_point :: "'p ECPoint"
  rq_clientData :: bytes

text \<open>
  \<^verbatim>\<open>RedeemRequest.from\<close>: the token length is read and not used; a point the
  library rejects is an exception here, there is no \<^verbatim>\<open>try\<close> around it.
\<close>

definition RedeemRequest_from :: "'p env \<Rightarrow> string \<Rightarrow> error + 'p RedeemRequest" where
  "RedeemRequest_from L s =
     (case readInt 2 (b64decode L s) of Inl e \<Rightarrow> Inl e | Inr (tokenLen, b1) \<Rightarrow>
     (case readInt 4 b1 of Inl e \<Rightarrow> Inl e | Inr (keyID, b2) \<Rightarrow>
     (case readBytes NONCE_LENGTH b2 of Inl e \<Rightarrow> Inl e | Inr (nonce, b3) \<Rightarrow>
     (case readBytes (BYTES * 2 + 1) b3 of Inl e \<Rightarrow> Inl e | Inr (v, b4) \<Rightarrow>
     (case ECPoint_of_bytes L v of Inl e \<Rightarrow> Inl e | Inr pt \<Rightarrow>
     (case readInt 2 b4 of Inl e \<Rightarrow> Inl e | Inr (clientDataLen, b5) \<Rightarrow>
     (case readBytes clientDataLen b5 of Inl e \<Rightarrow> Inl e | Inr (clientData, b6) \<Rightarrow>
        Inr \<lparr>rq_keyID = keyID, rq_nonce = nonce, rq_point = pt,
             rq_clientData = clientData\<rparr>)))))))"

definition RedeemRequest_toBytes :: "'p RedeemRequest \<Rightarrow> bytes" where
  "RedeemRequest_toBytes r =
     writeInt (length (rq_nonce r) + length (ECPoint_toBytes (rq_point r)) + 4) 2
       @ writeInt (rq_keyID r) 4
       @ rq_nonce r
       @ ECPoint_toBytes (rq_point r)
       @ writeInt (length (rq_clientData r)) 2
       @ rq_clientData r"

definition RedeemRequest_toString :: "'p env \<Rightarrow> 'p RedeemRequest \<Rightarrow> string" where
  "RedeemRequest_toString L r = b64encode L (RedeemRequest_toBytes r)"

text \<open>
  The redemption record handed to \<^verbatim>\<open>new RedeemResponse\<close> is an array of bytes, a
  typed array, a string, or absent (then the default \<^verbatim>\<open>[]\<close> applies).
\<close>

datatype redemption_record =
  RecordArray bytes | RecordView bytes | RecordString string | RecordAbsent

record RedeemResponse =
  rr_record :: bytes

fun RedeemResponse_new :: "redemption_record \<Rightarrow> RedeemResponse" where
  "RedeemResponse_new (RecordView v) = \<lparr>rr_record = v\<rparr>"
| "RedeemResponse_new (RecordString s) = \<lparr>rr_record = stringToBytes s\<rparr>"
| "RedeemResponse_new (RecordArray a) = \<lparr>rr_record = a\<rparr>"
| "RedeemResponse_new RecordAbsent = \<lparr>rr_record = []\<rparr>"


section \<open>The issuer\<close>

record VersionConfig =
  vc_name :: string
  vc_suite :: string
  vc_hash :: hash_alg
  hashToGroupDST :: string
  hashToScalarDST :: string

definition PrivateStateTokenV3VOPRF :: VersionConfig where
  "PrivateStateTokenV3VOPRF =
     \<lparr>vc_name = ''PrivateStateTokenV3VOPRF'',
      vc_suite = ''P384_XMD:SHA-512_SSWU_RO_'',
      vc_hash = sha512,
      hashToGroupDST = ''TrustToken VOPRF Experiment V2 HashToGroup'' @ [CHR 0x00],
      hashToScalarDST = ''TrustToken VOPRF Experiment V2 HashToScalar'' @ [CHR 0x00]\<rparr>"

definition PrivateStateTokenV1VOPRF :: VersionConfig where
  "PrivateStateTokenV1VOPRF =
     \<lparr>vc_name = ''PrivateStateTokenV1VOPRF'',
      vc_suite = ''P384_XMD:SHA-384_SSWU_RO_'',
      vc_hash = sha384,
      hashToGroupDST = ''HashToGroup-OPRFV1-'' @ [CHR 0x01] @ ''-P384-SHA384'' @ [CHR 0x00],
      hashToScalarDST = ''HashToScalar-OPRFV1-'' @ [CHR 0x01] @ ''-P384-SHA384'' @ [CHR 0x00]\<rparr>"

definition VERSIONS :: "(string \<times> VersionConfig) list" where
  "VERSIONS =
     [(''PrivateStateTokenV3VOPRF'', PrivateStateTokenV3VOPRF),
      (''PrivateStateTokenV1VOPRF'', PrivateStateTokenV1VOPRF)]"

definition DEFAULT_VERSION :: string where
  "DEFAULT_VERSION = ''PrivateStateTokenV3VOPRF''"

definition KEY_COMMITMENT_ID :: nat where
  "KEY_COMMITMENT_ID = 1"

text \<open>
  \<^verbatim>\<open>getVersionConfig\<close>. The version argument is \<open>None\<close> when it is absent
  (\<^verbatim>\<open>undefined\<close>), and then the default parameter value applies;
  \<^verbatim>\<open>VERSIONS.get(version) || VERSIONS.get(DEFAULT_VERSION)\<close> falls back when the
  map has no such entry.
\<close>

definition getVersionConfig :: "string option \<Rightarrow> VersionConfig" where
  "getVersionConfig version =
     (let v = (case version of None \<Rightarrow> ''PrivateStateTokenV3VOPRF'' | Some s \<Rightarrow> s)
      in case map_of VERSIONS v of
           Some config \<Rightarrow> config
         | None \<Rightarrow> the (map_of VERSIONS DEFAULT_VERSION))"

text \<open>
  The issuer owns a \<^verbatim>\<open>Map\<close> from key id to key pair. A \<^verbatim>\<open>Map\<close> iterates in
  insertion order, and setting a key that is present keeps its place: an association
  list with \<open>AList.update\<close>.
\<close>

record Issuer =
  host :: string
  maxBatchSize :: nat
  keys :: "(nat \<times> PrivateStateTokenKeyPair) list"

definition Issuer_new :: "string \<Rightarrow> nat \<Rightarrow> PrivateStateTokenKeyPair list \<Rightarrow> Issuer" where
  "Issuer_new h b ks =
     \<lparr>host = h, maxBatchSize = b,
      keys = foldl (\<lambda>m k. AList.update (kp_id k) k m) [] ks\<rparr>"

definition publicKeys :: "Issuer \<Rightarrow> PrivateStateTokenPublicKey list" where
  "publicKeys I = map (\<lambda>(i, k). publicKey k) (keys I)"

definition addKey :: "Issuer \<Rightarrow> PrivateStateTokenKeyPair \<Rightarrow> Issuer" where
  "addKey I key = I\<lparr>keys := AList.update (kp_id key) key (keys I)\<rparr>"

subsection \<open>Key commitments\<close>

record KeyCommitmentKey =
  kc_Y :: string
  kc_expiry :: string

record KeyCommitment =
  protocol_version :: string
  kc_id :: nat
  batchsize :: nat
  kc_keys :: "nat \<Rightarrow> KeyCommitmentKey option"

text \<open>The document \<^verbatim>\<open>{ [host]: { [protocol.name]: keyCommitment } }\<close>.\<close>

record KeyCommitmentDocument =
  doc_host :: string
  doc_protocol :: string
  doc_commitment :: KeyCommitment

definition keyCommitment :: "'p env \<Rightarrow> Issuer \<Rightarrow> string option \<Rightarrow> KeyCommitmentDocument" where
  "keyCommitment L I version =
     (let protocol = getVersionConfig version;
          entries = foldl
            (\<lambda>m key. m(pk_id key \<mapsto>
               \<lparr>kc_Y = b64encode L (writeInt32 (pk_id key) @ PublicKey_toBytes key),
                kc_expiry = numberToString L (pk_expiry key)\<rparr>))
            Map.empty (publicKeys I)
      in \<lparr>doc_host = host I,
          doc_protocol = vc_name protocol,
          doc_commitment =
            \<lparr>protocol_version = vc_name protocol,
             kc_id = KEY_COMMITMENT_ID,
             batchsize = maxBatchSize I,
             kc_keys = entries\<rparr>\<rparr>)"

subsection \<open>Issuance\<close>

definition hashTofieldConfig :: "VersionConfig \<Rightarrow> h2f_config" where
  "hashTofieldConfig config =
     \<lparr>h_DST = hashToScalarDST config, h_m = 1, h_p = ORDER, h_k = 192,
      h_expand = ''xmd'', h_hash = vc_hash config\<rparr>"

text \<open>
  The first loop of \<^verbatim>\<open>issue\<close>: each blinded token is multiplied by the secret
  scalar, the product is pushed on \<^verbatim>\<open>signedNonces\<close>, and the bytes of the token and
  of the product are appended to \<^verbatim>\<open>batch\<close>.
\<close>

fun sign_loop ::
  "'p env \<Rightarrow> nat \<Rightarrow> 'p ECPoint list \<Rightarrow> 'p ECPoint list \<Rightarrow> bytes
     \<Rightarrow> error + ('p ECPoint list \<times> bytes)" where
  "sign_loop L scalar [] signedNonces batch = Inr (signedNonces, batch)"
| "sign_loop L scalar (blindedToken # rest) signedNonces batch =
     (case ECPoint_multiply L blindedToken (Some scalar) of
        Inl e \<Rightarrow> Inl e
      | Inr z \<Rightarrow>
          sign_loop L scalar rest (signedNonces @ [z])
            ((batch @ ECPoint_toBytes blindedToken) @ ECPoint_toBytes z))"

text \<open>The second loop: one exponent for each index below \<open>count\<close>.\<close>

function exponent_loop ::
  "'p env \<Rightarrow> h2f_config \<Rightarrow> bytes \<Rightarrow> nat \<Rightarrow> nat \<Rightarrow> nat list \<Rightarrow> nat list" where
  "exponent_loop L options batch count i exponentList =
     (if i < count then
        exponent_loop L options batch count (Suc i)
          (exponentList @
             [hash_to_field L
                (writeString (''DLEQ BATCH'' @ [CHR 0x00]) @ batch @ writeInt i 2) options])
      else exponentList)"
  by pat_completeness auto
termination
  by (relation "measure (\<lambda>(L, options, batch, count, i, exponentList). count - i)") auto

declare exponent_loop.simps [simp del]

text \<open>
  The third and the fourth loop add up \<open>exponent \<cdot> point\<close> from the identity. They
  run over the indices below \<open>count\<close>, and the arrays they index all have \<open>count\<close>
  elements, so they run over the pairs of a point and its exponent.
\<close>

fun batch_loop :: "'p env \<Rightarrow> ('p \<times> nat) list \<Rightarrow> 'p \<Rightarrow> error + 'p" where
  "batch_loop L [] acc = Inr acc"
| "batch_loop L ((P, exponent) # rest) acc =
     (case multiply L P (Some exponent) of
        Inl e \<Rightarrow> Inl e
      | Inr Q \<Rightarrow> batch_loop L rest (point_add L acc Q))"

text \<open>
  \<^verbatim>\<open>#generateDLEQProof\<close>, with the fixed proof nonce \<open>r = ORDER - 1\<close>. The four
  points are encoded in the order the source writes them to the buffer, and each
  encoding throws for the identity.
\<close>

definition generateDLEQProof ::
  "'p env \<Rightarrow> PrivateStateTokenKeyPair \<Rightarrow> 'p \<Rightarrow> 'p \<Rightarrow> string option \<Rightarrow> error + bytes" where
  "generateDLEQProof L keyPair btBatch zBatch version =
     (let r = ORDER - 1;
          config = getVersionConfig version
      in case multiply L (BASE L) (Some r) of Inl e \<Rightarrow> Inl e | Inr k0 \<Rightarrow>
        (case multiply L btBatch (Some r) of Inl e \<Rightarrow> Inl e | Inr k1 \<Rightarrow>
        (case Point_toRawBytes L btBatch of Inl e \<Rightarrow> Inl e | Inr btBytes \<Rightarrow>
        (case Point_toRawBytes L zBatch of Inl e \<Rightarrow> Inl e | Inr zBytes \<Rightarrow>
        (case Point_toRawBytes L k0 of Inl e \<Rightarrow> Inl e | Inr k0Bytes \<Rightarrow>
        (case Point_toRawBytes L k1 of Inl e \<Rightarrow> Inl e | Inr k1Bytes \<Rightarrow>
          (let c = hash_to_field L
                     (writeString (''DLEQ'' @ [CHR 0x00])
                        @ PublicKey_toBytes (publicKey keyPair)
                        @ btBytes @ zBytes @ k0Bytes @ k1Bytes)
                     (hashTofieldConfig config);
               u = (r + c * sk_scalar (secretKey keyPair)) mod ORDER
           in Inr (numberToBytes c BYTES @ numberToBytes u BYTES))))))))"

text \<open>
  \<^verbatim>\<open>issue\<close>. \<open>Inr None\<close> is the \<^verbatim>\<open>null\<close> it returns for an unknown key, \<open>Inl\<close> an
  exception of the library. The proof is asked for without a version argument, as
  in the source.
\<close>

definition issue ::
  "'p env \<Rightarrow> Issuer \<Rightarrow> nat \<Rightarrow> 'p IssueRequest \<Rightarrow> string option
     \<Rightarrow> error + 'p IssueResponse option" where
  "issue L I keyId request version =
     (case map_of (keys I) keyId of
        None \<Rightarrow> Inr None
      | Some keyPair \<Rightarrow>
          (let config = getVersionConfig version;
               options = hashTofieldConfig config;
               count = length (nonces request)
           in case sign_loop L (sk_scalar (secretKey keyPair)) (nonces request) []
                     (PublicKey_toBytes (publicKey keyPair)) of
                Inl e \<Rightarrow> Inl e
              | Inr (signedNonces, batch) \<Rightarrow>
                 (let exponentList = exponent_loop L options batch count 0 []
                  in case batch_loop L (zip (map ec_point (nonces request)) exponentList)
                            (ZERO L) of
                       Inl e \<Rightarrow> Inl e
                     | Inr blindedTokenBatch \<Rightarrow>
                        (case batch_loop L (zip (map ec_point signedNonces) exponentList)
                                (ZERO L) of
                           Inl e \<Rightarrow> Inl e
                         | Inr zBatch \<Rightarrow>
                            (case generateDLEQProof L keyPair blindedTokenBatch zBatch None of
                               Inl e \<Rightarrow> Inl e
                             | Inr prf \<Rightarrow>
                                 Inr (Some \<lparr>ir_keyID = keyId, ir_signed = signedNonces,
                                            ir_proof = prf\<rparr>))))))"

subsection \<open>Redemption\<close>

text \<open>
  \<^verbatim>\<open>redeem\<close>. \<^verbatim>\<open>this.#keys.get(request.keyID)?.secretKey\<close> and then
  \<^verbatim>\<open>secretKey?.scalar\<close> are \<^verbatim>\<open>undefined\<close> for an unknown key, and that is what
  \<^verbatim>\<open>multiply\<close> is given. \<open>Inr None\<close> is the \<^verbatim>\<open>null\<close> of a rejection.
\<close>

definition redeem ::
  "'p env \<Rightarrow> Issuer \<Rightarrow> 'p RedeemRequest \<Rightarrow> redemption_record \<Rightarrow> string option
     \<Rightarrow> error + RedeemResponse option" where
  "redeem L I request redemptionRecord version =
     (let config = getVersionConfig version;
          evaluatedElement =
            hashToCurve L (vc_hash config) (hashToGroupDST config) (rq_nonce request);
          sk = map_option secretKey (map_of (keys I) (rq_keyID request))
      in case multiply L evaluatedElement (map_option sk_scalar sk) of
           Inl e \<Rightarrow> Inl e
         | Inr issuedElement \<Rightarrow>
             if ec_point (rq_point request) = issuedElement
             then Inr (Some (RedeemResponse_new redemptionRecord))
             else Inr None)"

section \<open>An instance of the library interface\<close>

text \<open>
  The points of P-384 form a cyclic group of prime order \<open>ORDER\<close>. The integers
  modulo \<open>ORDER\<close> under addition are a group of that shape, with generator \<open>1\<close>
  and \<open>k \<cdot> P = P * k mod ORDER\<close>; they give an instance of the interface on which
  the model runs. A point is encoded as \<open>0x04\<close> and 96 big-endian bytes, the identity
  has no encoding, the hash functions are stand-ins that tell the hash and the DST
  apart, the codec maps a byte to the character with that code, and numbers are
  printed in decimal digits.
\<close>

function decimal :: "nat \<Rightarrow> string" where
  "decimal n =
     (if n < 10 then [char_of (48 + n)]
      else decimal (n div 10) @ [char_of (48 + n mod 10)])"
  by pat_completeness auto
termination
  by (relation "measure id") auto

declare decimal.simps [simp del]

definition zn_fromHex :: "bytes \<Rightarrow> nat option" where
  "zn_fromHex v =
     (if length v = 97 \<and> take 1 v = [4]
         \<and> 0 < bytesToNumber (drop 1 v) \<and> bytesToNumber (drop 1 v) < ORDER
      then Some (bytesToNumber (drop 1 v)) else None)"

definition zn_hash_tag :: "hash_alg \<Rightarrow> nat" where
  "zn_hash_tag h = (case h of sha384 \<Rightarrow> 384 | sha512 \<Rightarrow> 512)"

definition zn_env :: "nat env" where
  "zn_env =
     \<lparr>fromHex = zn_fromHex,
      toRawBytes = (\<lambda>P. 4 # numberToBytes P 96),
      point_add = (\<lambda>P Q. (P + Q) mod ORDER),
      point_mul = (\<lambda>P k. (P * k) mod ORDER),
      ZERO = 0,
      BASE = 1,
      xmd_os2ip = (\<lambda>options msg.
        1 + (length msg + length (h_DST options) + zn_hash_tag (h_hash options)) mod 1000),
      hashToCurve = (\<lambda>h dst msg. 1 + (length msg + length dst + zn_hash_tag h) mod 1000),
      b64encode = map (\<lambda>b. char_of (unat b)),
      b64decode = map (\<lambda>c. of_nat (of_char c)),
      numberToString = decimal\<rparr>"

text \<open>
  The key pair of \<^verbatim>\<open>TEST_JWK\<close> has \<open>d = ORDER - 1\<close>; here with the public key
  \<open>d \<cdot> BASE\<close> of the instance, under key id \<open>0\<close>.
\<close>

definition zn_point :: "nat \<Rightarrow> nat ECPoint" where
  "zn_point P = \<lparr>ec_value = toRawBytes zn_env P, ec_point = P\<rparr>"

definition zn_keyPair :: PrivateStateTokenKeyPair where
  "zn_keyPair =
     \<lparr>kp_id = 0,
      publicKey = PublicKey_from 0 (toRawBytes zn_env (ORDER - 1)) 253402300799000000,
      secretKey = \<lparr>sk_id = 0, sk_scalar = ORDER - 1, sk_expiry = 253402300799000000\<rparr>,
      kp_expiry = 253402300799000000\<rparr>"

definition zn_issuer :: Issuer where
  "zn_issuer = Issuer_new ''https://localhost:8444'' 10 [zn_keyPair]"

section \<open>The transcript in closed form\<close>

text \<open>
  The quantities of the issue engine as the specification words them, to be compared
  with what the loops of \<^verbatim>\<open>issue\<close> compute: the signed points \<open>Z\<^sub>i = sk \<cdot> T\<^sub>i\<close>, the
  batch transcript \<open>B = pk_bytes \<parallel> (T\<^sub>0 \<parallel> Z\<^sub>0) \<parallel> \<dots>\<close>, the coefficient
  \<open>e\<^sub>i = hash_to_scalar("DLEQ BATCH\0" \<parallel> B \<parallel> u16(i))\<close>, the combinations \<open>T\<^sup>* = \<Sum> e\<^sub>i \<cdot> T\<^sub>i\<close>
  and \<open>Z\<^sup>* = \<Sum> e\<^sub>i \<cdot> Z\<^sub>i\<close>, and the challenge over them under a given configuration.
\<close>

definition spec_signed :: "'p env \<Rightarrow> nat \<Rightarrow> 'p ECPoint list \<Rightarrow> 'p ECPoint list" where
  "spec_signed L sk Ts =
     map (\<lambda>T. \<lparr>ec_value = toRawBytes L (point_mul L (ec_point T) sk),
                ec_point = point_mul L (ec_point T) sk\<rparr>) Ts"

definition spec_batch :: "'p env \<Rightarrow> PrivateStateTokenKeyPair \<Rightarrow> 'p ECPoint list \<Rightarrow> bytes" where
  "spec_batch L keyPair Ts =
     PublicKey_toBytes (publicKey keyPair)
       @ concat (map (\<lambda>T. ec_value T
            @ toRawBytes L (point_mul L (ec_point T) (sk_scalar (secretKey keyPair)))) Ts)"

definition spec_exponent :: "'p env \<Rightarrow> VersionConfig \<Rightarrow> bytes \<Rightarrow> nat \<Rightarrow> nat" where
  "spec_exponent L config B i =
     hash_to_field L
       (stringToBytes (''DLEQ BATCH'' @ [CHR 0x00]) @ B @ numberToBytes i 2)
       (hashTofieldConfig config)"

definition combination :: "'p env \<Rightarrow> 'p list \<Rightarrow> nat list \<Rightarrow> 'p" where
  "combination L Ps es =
     foldl (\<lambda>acc (P, e). point_add L acc (point_mul L P e)) (ZERO L) (zip Ps es)"

definition dleq_challenge ::
  "'p env \<Rightarrow> PrivateStateTokenKeyPair \<Rightarrow> 'p \<Rightarrow> 'p \<Rightarrow> 'p \<Rightarrow> 'p \<Rightarrow> VersionConfig \<Rightarrow> nat" where
  "dleq_challenge L keyPair btBatch zBatch k0 k1 config =
     hash_to_field L
       (writeString (''DLEQ'' @ [CHR 0x00])
          @ PublicKey_toBytes (publicKey keyPair)
          @ toRawBytes L btBatch @ toRawBytes L zBatch
          @ toRawBytes L k0 @ toRawBytes L k1)
       (hashTofieldConfig config)"

definition issue_exponents ::
  "'p env \<Rightarrow> PrivateStateTokenKeyPair \<Rightarrow> VersionConfig \<Rightarrow> 'p ECPoint list \<Rightarrow> nat list" where
  "issue_exponents L keyPair config Ts =
     map (spec_exponent L config (spec_batch L keyPair Ts)) [0..<length Ts]"

definition spec_Tstar ::
  "'p env \<Rightarrow> PrivateStateTokenKeyPair \<Rightarrow> VersionConfig \<Rightarrow> 'p ECPoint list \<Rightarrow> 'p" where
  "spec_Tstar L keyPair config Ts =
     combination L (map ec_point Ts) (issue_exponents L keyPair config Ts)"

definition spec_Zstar ::
  "'p env \<Rightarrow> PrivateStateTokenKeyPair \<Rightarrow> VersionConfig \<Rightarrow> 'p ECPoint list \<Rightarrow> 'p" where
  "spec_Zstar L keyPair config Ts =
     combination L (map (\<lambda>T. point_mul L (ec_point T) (sk_scalar (secretKey keyPair))) Ts)
       (issue_exponents L keyPair config Ts)"

definition issue_challenge ::
  "'p env \<Rightarrow> PrivateStateTokenKeyPair \<Rightarrow> VersionConfig \<Rightarrow> VersionConfig \<Rightarrow> 'p ECPoint list \<Rightarrow> nat" where
  "issue_challenge L keyPair config proofConfig Ts =
     dleq_challenge L keyPair (spec_Tstar L keyPair config Ts) (spec_Zstar L keyPair config Ts)
       (point_mul L (BASE L) (ORDER - 1))
       (point_mul L (spec_Tstar L keyPair config Ts) (ORDER - 1)) proofConfig"

section \<open>Bytes and versions: basic facts\<close>

lemma length_numberToBytes [simp]: "length (numberToBytes n len) = len"
  by (induction len arbitrary: n) simp_all

lemma bytesToNumber_Nil [simp]: "bytesToNumber [] = 0"
  by (simp add: bytesToNumber_def)

lemma bytesToNumber_snoc [simp]: "bytesToNumber (bs @ [b]) = bytesToNumber bs * 256 + unat b"
  by (simp add: bytesToNumber_def)

lemma unat_byte_of_nat: "unat (of_nat n :: byte) = n mod 256"
  by (simp add: unat_of_nat)

lemma bytesToNumber_numberToBytes: "bytesToNumber (numberToBytes n len) = n mod 256 ^ len"
proof (induction len arbitrary: n)
  case 0
  then show ?case by simp
next
  case (Suc len)
  have "n div 256 mod 256 ^ len * 256 + n mod 256 = n mod (256 * 256 ^ len)"
    by (simp add: mod_mult2_eq mult.commute)
  with Suc show ?case by (simp add: unat_byte_of_nat)
qed

lemma bytesToNumber_less: "bytesToNumber bs < 256 ^ length bs"
proof (induction bs rule: rev_induct)
  case Nil
  then show ?case by simp
next
  case (snoc b bs)
  have "unat b < 256" using unsigned_less [of b, where ?'a = nat] by simp
  with snoc show ?case by simp
qed

lemma readBytes_append: "length a = len \<Longrightarrow> readBytes len (a @ rest) = Inr (a, rest)"
  by (simp add: readBytes_def)

lemma readInt_writeInt: "readInt len (writeInt v len @ rest) = Inr (v mod 256 ^ len, rest)"
  by (simp add: readInt_def writeInt_def readBytes_append bytesToNumber_numberToBytes)

lemma getVersionConfig_V3: "getVersionConfig (Some ''PrivateStateTokenV3VOPRF'') = PrivateStateTokenV3VOPRF"
  by (simp add: getVersionConfig_def VERSIONS_def)

lemma getVersionConfig_V1: "getVersionConfig (Some ''PrivateStateTokenV1VOPRF'') = PrivateStateTokenV1VOPRF"
  by (simp add: getVersionConfig_def VERSIONS_def)

lemma getVersionConfig_None: "getVersionConfig None = PrivateStateTokenV3VOPRF"
  by (simp add: getVersionConfig_def VERSIONS_def)

lemma getVersionConfig_other:
  "v \<noteq> Some ''PrivateStateTokenV3VOPRF'' \<Longrightarrow> v \<noteq> Some ''PrivateStateTokenV1VOPRF'' \<Longrightarrow>
   getVersionConfig v = PrivateStateTokenV3VOPRF"
  by (cases v) (simp_all add: getVersionConfig_def VERSIONS_def DEFAULT_VERSION_def)

lemma multiply_valid: "0 < s \<Longrightarrow> s < ORDER \<Longrightarrow> multiply L P (Some s) = Inr (point_mul L P s)"
  by (simp add: multiply_def)

lemma ORDER_bound: "ORDER < 256 ^ 48"
  by (simp add: ORDER_def)

lemma ORDER_hex: "ORDER = 0xffffffffffffffffffffffffffffffffffffffffffffffffc7634d81f4372ddf581a0db248b0a77aecec196accc52973"
  by (simp add: ORDER_def)

lemma bytesToNumber_numberToBytes_id:
  "n < 256 ^ len \<Longrightarrow> bytesToNumber (numberToBytes n len) = n"
  by (simp add: bytesToNumber_numberToBytes)

lemma scalar_roundtrip: "n < ORDER \<Longrightarrow> bytesToNumber (numberToBytes n 48) = n"
  using ORDER_bound by (intro bytesToNumber_numberToBytes_id) simp

lemma numberToBytes_96_2: "numberToBytes 96 2 = [0, 96]"
  by (simp add: numeral_2_eq_2)

section \<open>The expiry heuristic\<close>

text \<open>
  \<open>ceil_log10\<close> is \<^verbatim>\<open>Math.ceil(Math.log10(x))\<close> over the reals.
\<close>

lemma ceil_log10_real:
  assumes "0 < x"
  shows "int (ceil_log10 x) = \<lceil>log 10 (real x)\<rceil>"
proof -
  have iff: "ceil_log10 x \<le> w \<longleftrightarrow> \<lceil>log 10 (real x)\<rceil> \<le> int w" for w :: nat
  proof -
    have "ceil_log10 x \<le> w \<longleftrightarrow> x - 1 < 10 ^ w"
      by (simp add: ceil_log10_def floorlog_le_iff)
    also have "\<dots> \<longleftrightarrow> x \<le> 10 ^ w"
      using assms by auto
    also have "\<dots> \<longleftrightarrow> real x \<le> 10 ^ w"
      by (metis of_nat_le_iff of_nat_numeral of_nat_power)
    also have "\<dots> \<longleftrightarrow> real x \<le> 10 powr real w"
      by (simp add: powr_realpow)
    also have "\<dots> \<longleftrightarrow> log 10 (real x) \<le> real w"
      using assms by (simp add: log_le_iff)
    also have "\<dots> \<longleftrightarrow> \<lceil>log 10 (real x)\<rceil> \<le> int w"
      by (simp add: ceiling_le_iff)
    finally show ?thesis .
  qed
  have "1 \<le> real x" using assms by simp
  then have "0 \<le> log 10 (real x)" by simp
  then have "0 \<le> \<lceil>log 10 (real x)\<rceil>"
    using ceiling_mono [of 0 "log 10 (real x)"] by simp
  then obtain k :: nat where k: "\<lceil>log 10 (real x)\<rceil> = int k"
    using nonneg_int_cases by blast
  from iff [of k] k have "ceil_log10 x \<le> k" by simp
  moreover from iff [of "ceil_log10 x"] k have "k \<le> ceil_log10 x" by simp
  ultimately show ?thesis using k by simp
qed

lemma ceil_log10_Suc0: "ceil_log10 (Suc 0) = 0"
  by (simp add: ceil_log10_def floorlog_def)

lemma ceil_log10_e15: "ceil_log10 1000000000000000 = 15"
proof -
  have "floorlog 10 (999999999999999::nat) \<le> 15"
    by (rule floorlog_leI) simp_all
  moreover have "15 \<le> floorlog 10 (999999999999999::nat)"
    by (rule floorlog_geI) simp_all
  ultimately show ?thesis by (simp add: ceil_log10_def)
qed

lemma sanitize_exponent_int:
  "sanitize_exponent expiry = nat (- (- max (16 - int (ceil_log10 expiry)) 0 div 3)) * 3"
proof -
  have "\<lceil>real_of_int a / 3\<rceil> = - (- a div 3)" for a :: int
    using ceiling_divide_eq_div [of a 3] by simp
  then show ?thesis by (simp add: sanitize_exponent_def)
qed

section \<open>The loops of the issue engine\<close>

lemma Point_toRawBytes_Inr:
  "Point_toRawBytes L P = Inr v \<longleftrightarrow> P \<noteq> ZERO L \<and> v = toRawBytes L P"
  by (auto simp: Point_toRawBytes_def)

lemma Point_toRawBytes_ZERO: "Point_toRawBytes L (ZERO L) = Inl ZeroPoint"
  by (simp add: Point_toRawBytes_def)

lemma Point_toRawBytes_valid: "P \<noteq> ZERO L \<Longrightarrow> Point_toRawBytes L P = Inr (toRawBytes L P)"
  by (simp add: Point_toRawBytes_def)

lemma ECPoint_multiply_Inr:
  "ECPoint_multiply L T (Some sk) = Inr z \<Longrightarrow>
   point_mul L (ec_point T) sk \<noteq> ZERO L \<and>
   z = \<lparr>ec_value = toRawBytes L (point_mul L (ec_point T) sk),
        ec_point = point_mul L (ec_point T) sk\<rparr>"
  by (auto simp: ECPoint_multiply_def multiply_def ECPoint_of_point_def Point_toRawBytes_def
      split: sum.splits if_splits)

lemma ECPoint_multiply_valid:
  "0 < sk \<Longrightarrow> sk < ORDER \<Longrightarrow> point_mul L (ec_point T) sk \<noteq> ZERO L \<Longrightarrow>
   ECPoint_multiply L T (Some sk) =
     Inr \<lparr>ec_value = toRawBytes L (point_mul L (ec_point T) sk),
          ec_point = point_mul L (ec_point T) sk\<rparr>"
  by (simp add: ECPoint_multiply_def multiply_def ECPoint_of_point_def Point_toRawBytes_def)

lemma sign_loop_valid:
  assumes "0 < sk" "sk < ORDER"
    and "\<forall>T \<in> set Ts. point_mul L (ec_point T) sk \<noteq> ZERO L"
  shows "sign_loop L sk Ts sn batch =
     Inr (sn @ spec_signed L sk Ts,
          batch @ concat (map (\<lambda>T. ec_value T @ toRawBytes L (point_mul L (ec_point T) sk)) Ts))"
  using assms(3)
proof (induction Ts arbitrary: sn batch)
  case Nil
  then show ?case by (simp add: spec_signed_def)
next
  case (Cons T Ts)
  from Cons.prems have nz: "point_mul L (ec_point T) sk \<noteq> ZERO L"
    and rest: "\<forall>T \<in> set Ts. point_mul L (ec_point T) sk \<noteq> ZERO L"
    by simp_all
  show ?case
    by (simp add: ECPoint_multiply_valid [OF assms(1,2) nz] Cons.IH [OF rest]
        spec_signed_def ECPoint_toBytes_def)
qed

lemma sign_loop_Nil: "sign_loop L sk [] sn batch = Inr (sn, batch)"
  by simp

lemma sign_loop_Inr:
  "sign_loop L sk Ts sn batch = Inr (sn', batch') \<Longrightarrow>
   sn' = sn @ spec_signed L sk Ts \<and>
   batch' = batch @ concat (map (\<lambda>T. ec_value T @ toRawBytes L (point_mul L (ec_point T) sk)) Ts)"
proof (induction Ts arbitrary: sn batch)
  case Nil
  then show ?case by (simp add: spec_signed_def)
next
  case (Cons T Ts)
  from Cons.prems obtain z where
    z: "ECPoint_multiply L T (Some sk) = Inr z"
    and rest: "sign_loop L sk Ts (sn @ [z]) ((batch @ ECPoint_toBytes T) @ ECPoint_toBytes z)
               = Inr (sn', batch')"
    by (auto split: sum.splits)
  from ECPoint_multiply_Inr [OF z] have
    zeq: "z = \<lparr>ec_value = toRawBytes L (point_mul L (ec_point T) sk),
               ec_point = point_mul L (ec_point T) sk\<rparr>"
    by simp
  from Cons.IH [OF rest] show ?case
    by (simp add: zeq spec_signed_def ECPoint_toBytes_def)
qed


lemma exponent_loop_eq:
  "exponent_loop L options batch count i acc =
     acc @ map (\<lambda>j. hash_to_field L
        (writeString (''DLEQ BATCH'' @ [CHR 0x00]) @ batch @ writeInt j 2) options) [i..<count]"
proof (induction L options batch count i acc rule: exponent_loop.induct)
  case (1 L options batch count i acc)
  show ?case
  proof (cases "i < count")
    case True
    then show ?thesis
      using "1.IH" by (subst exponent_loop.simps) (simp add: upt_conv_Cons)
  next
    case False
    then show ?thesis by (subst exponent_loop.simps) simp
  qed
qed

lemma batch_loop_Inr:
  "batch_loop L xs acc = Inr r \<Longrightarrow>
   r = foldl (\<lambda>acc (P, e). point_add L acc (point_mul L P e)) acc xs"
proof (induction xs arbitrary: acc)
  case Nil
  then show ?case by simp
next
  case (Cons x xs)
  obtain P e where x: "x = (P, e)" by (cases x)
  from Cons.prems x obtain Q where
    q: "multiply L P (Some e) = Inr Q" and rest: "batch_loop L xs (point_add L acc Q) = Inr r"
    by (auto split: sum.splits)
  from q have "Q = point_mul L P e"
    by (auto simp: multiply_def split: if_splits)
  with Cons.IH [OF rest] x show ?case by simp
qed

lemma batch_loop_valid:
  "\<forall>e \<in> set (map snd xs). 0 < e \<and> e < ORDER \<Longrightarrow>
   batch_loop L xs acc = Inr (foldl (\<lambda>acc (P, e). point_add L acc (point_mul L P e)) acc xs)"
  by (induction xs arbitrary: acc) (auto simp: multiply_def)

lemma ORDER_pos: "0 < ORDER"
  by (simp add: ORDER_def)

lemma hash_to_field_less: "hash_to_field L msg (hashTofieldConfig config) < ORDER"
  by (simp add: hash_to_field_def hashTofieldConfig_def ORDER_pos)

lemma multiply_r: "multiply L P (Some (ORDER - 1)) = Inr (point_mul L P (ORDER - 1))"
  by (simp add: multiply_def ORDER_def)

text \<open>
  \<^verbatim>\<open>#generateDLEQProof\<close> returns exactly when none of the four points it encodes is
  the identity, and then the proof is the challenge and the response, 48 bytes each.
\<close>

lemma generateDLEQProof_valid:
  assumes "bt \<noteq> ZERO L" and "zb \<noteq> ZERO L"
    and "point_mul L (BASE L) (ORDER - 1) \<noteq> ZERO L"
    and "point_mul L bt (ORDER - 1) \<noteq> ZERO L"
  shows "generateDLEQProof L keyPair bt zb version =
     Inr (numberToBytes
            (dleq_challenge L keyPair bt zb (point_mul L (BASE L) (ORDER - 1))
               (point_mul L bt (ORDER - 1)) (getVersionConfig version)) 48
          @ numberToBytes
            ((ORDER - 1 + dleq_challenge L keyPair bt zb (point_mul L (BASE L) (ORDER - 1))
               (point_mul L bt (ORDER - 1)) (getVersionConfig version)
                 * sk_scalar (secretKey keyPair)) mod ORDER) 48)"
proof -
  define k0 where "k0 = point_mul L (BASE L) (ORDER - 1)"
  define k1 where "k1 = point_mul L bt (ORDER - 1)"
  have m0: "multiply L (BASE L) (Some (ORDER - 1)) = Inr k0"
    and m1: "multiply L bt (Some (ORDER - 1)) = Inr k1"
    unfolding k0_def k1_def by (rule multiply_r)+
  have p: "Point_toRawBytes L bt = Inr (toRawBytes L bt)"
    "Point_toRawBytes L zb = Inr (toRawBytes L zb)"
    "Point_toRawBytes L k0 = Inr (toRawBytes L k0)"
    "Point_toRawBytes L k1 = Inr (toRawBytes L k1)"
    using assms by (simp_all add: Point_toRawBytes_valid k0_def k1_def)
  have "generateDLEQProof L keyPair bt zb version =
     Inr (numberToBytes (dleq_challenge L keyPair bt zb k0 k1 (getVersionConfig version)) 48
          @ numberToBytes
            ((ORDER - 1 + dleq_challenge L keyPair bt zb k0 k1 (getVersionConfig version)
                 * sk_scalar (secretKey keyPair)) mod ORDER) 48)"
    unfolding generateDLEQProof_def Let_def m0 m1
    by (simp add: p BYTES_def dleq_challenge_def)
  then show ?thesis unfolding k0_def k1_def .
qed

lemma generateDLEQProof_Inr:
  assumes "generateDLEQProof L keyPair bt zb version = Inr prf"
  shows "bt \<noteq> ZERO L \<and> zb \<noteq> ZERO L
         \<and> point_mul L (BASE L) (ORDER - 1) \<noteq> ZERO L
         \<and> point_mul L bt (ORDER - 1) \<noteq> ZERO L"
proof -
  define k0 where "k0 = point_mul L (BASE L) (ORDER - 1)"
  define k1 where "k1 = point_mul L bt (ORDER - 1)"
  have m0: "multiply L (BASE L) (Some (ORDER - 1)) = Inr k0"
    and m1: "multiply L bt (Some (ORDER - 1)) = Inr k1"
    unfolding k0_def k1_def by (rule multiply_r)+
  from assms have
    "(case Point_toRawBytes L bt of Inl e \<Rightarrow> Inl e | Inr btBytes \<Rightarrow>
      (case Point_toRawBytes L zb of Inl e \<Rightarrow> Inl e | Inr zBytes \<Rightarrow>
      (case Point_toRawBytes L k0 of Inl e \<Rightarrow> Inl e | Inr k0Bytes \<Rightarrow>
      (case Point_toRawBytes L k1 of Inl e \<Rightarrow> Inl e | Inr k1Bytes \<Rightarrow>
         Inr (btBytes @ zBytes @ k0Bytes @ k1Bytes))))) \<noteq> (Inl ZeroPoint :: error + bytes)"
    unfolding generateDLEQProof_def Let_def m0 m1
    by (auto simp: Point_toRawBytes_def split: if_splits)
  then have "bt \<noteq> ZERO L \<and> zb \<noteq> ZERO L \<and> k0 \<noteq> ZERO L \<and> k1 \<noteq> ZERO L"
    by (auto simp: Point_toRawBytes_def split: if_splits)
  then show ?thesis by (simp add: k0_def k1_def)
qed

lemma generateDLEQProof_ZERO: "generateDLEQProof L keyPair (ZERO L) zb version = Inl ZeroPoint"
proof -
  define k0 where "k0 = point_mul L (BASE L) (ORDER - 1)"
  define k1 where "k1 = point_mul L (ZERO L) (ORDER - 1)"
  have m0: "multiply L (BASE L) (Some (ORDER - 1)) = Inr k0"
    and m1: "multiply L (ZERO L) (Some (ORDER - 1)) = Inr k1"
    unfolding k0_def k1_def by (rule multiply_r)+
  show ?thesis
    unfolding generateDLEQProof_def Let_def m0 m1
    by (simp add: Point_toRawBytes_ZERO)
qed

lemma exponent_loop_spec:
  "exponent_loop L (hashTofieldConfig config) (spec_batch L keyPair Ts) (length Ts) 0 [] =
     issue_exponents L keyPair config Ts"
  by (simp add: exponent_loop_eq issue_exponents_def spec_exponent_def writeString_def
      writeInt_def)

lemma sign_loop_spec:
  assumes "sign_loop L (sk_scalar (secretKey keyPair)) Ts []
             (PublicKey_toBytes (publicKey keyPair)) = Inr (sn, batch)"
  shows "sn = spec_signed L (sk_scalar (secretKey keyPair)) Ts"
    and "batch = spec_batch L keyPair Ts"
  using sign_loop_Inr [OF assms] by (simp_all add: spec_batch_def)

lemma ec_point_spec_signed:
  "map ec_point (spec_signed L sk Ts) = map (\<lambda>T. point_mul L (ec_point T) sk) Ts"
  by (simp add: spec_signed_def comp_def)

lemma spec_Tstar_Nil: "spec_Tstar L keyPair config [] = ZERO L"
  by (simp add: spec_Tstar_def combination_def)

text \<open>
  What a response of \<^verbatim>\<open>issue\<close> tells about the stages behind it: the first loop
  returned the signed points and the batch transcript, the two sums are \<open>T\<^sup>*\<close> and
  \<open>Z\<^sup>*\<close> under the exponents of the second loop, and the proof was generated from them.
\<close>

lemma issue_stages:
  assumes iss: "issue L I keyId request version = Inr (Some resp)"
    and key: "map_of (keys I) keyId = Some keyPair"
  shows "sign_loop L (sk_scalar (secretKey keyPair)) (nonces request) []
           (PublicKey_toBytes (publicKey keyPair))
         = Inr (ir_signed resp, spec_batch L keyPair (nonces request))"
    and "ir_signed resp = spec_signed L (sk_scalar (secretKey keyPair)) (nonces request)"
    and "ir_keyID resp = keyId"
    and "generateDLEQProof L keyPair
           (spec_Tstar L keyPair (getVersionConfig version) (nonces request))
           (spec_Zstar L keyPair (getVersionConfig version) (nonces request)) None
         = Inr (ir_proof resp)"
proof -
  let ?sk = "sk_scalar (secretKey keyPair)"
  let ?Ts = "nonces request"
  let ?cfg = "getVersionConfig version"
  from iss key obtain sn batch where
    s1: "sign_loop L ?sk ?Ts [] (PublicKey_toBytes (publicKey keyPair)) = Inr (sn, batch)"
    by (auto simp: issue_def Let_def split: sum.splits)
  note sn = sign_loop_spec(1) [OF s1] and batch = sign_loop_spec(2) [OF s1]
  have ex: "exponent_loop L (hashTofieldConfig ?cfg) batch (length ?Ts) 0 [] =
            issue_exponents L keyPair ?cfg ?Ts"
    by (simp add: batch exponent_loop_spec)
  from iss key s1 ex obtain bt where
    s2: "batch_loop L (zip (map ec_point ?Ts) (issue_exponents L keyPair ?cfg ?Ts)) (ZERO L) = Inr bt"
    by (auto simp: issue_def Let_def split: sum.splits)
  from iss key s1 ex s2 obtain zb where
    s3: "batch_loop L (zip (map ec_point sn) (issue_exponents L keyPair ?cfg ?Ts)) (ZERO L) = Inr zb"
    by (auto simp: issue_def Let_def split: sum.splits)
  have bt: "bt = spec_Tstar L keyPair ?cfg ?Ts"
    using batch_loop_Inr [OF s2] by (simp add: spec_Tstar_def combination_def)
  have zb: "zb = spec_Zstar L keyPair ?cfg ?Ts"
    using batch_loop_Inr [OF s3]
    by (simp add: spec_Zstar_def combination_def sn ec_point_spec_signed)
  from iss key s1 ex s2 s3 obtain bs where
    s4: "generateDLEQProof L keyPair bt zb None = Inr bs"
    and r: "resp = \<lparr>ir_keyID = keyId, ir_signed = sn, ir_proof = bs\<rparr>"
    by (auto simp: issue_def Let_def split: sum.splits)
  from r sn show "ir_signed resp = spec_signed L ?sk ?Ts" by simp
  from r show "ir_keyID resp = keyId" by simp
  from s1 r batch show "sign_loop L ?sk ?Ts [] (PublicKey_toBytes (publicKey keyPair))
         = Inr (ir_signed resp, spec_batch L keyPair ?Ts)" by simp
  from s4 r bt zb show "generateDLEQProof L keyPair (spec_Tstar L keyPair ?cfg ?Ts)
           (spec_Zstar L keyPair ?cfg ?Ts) None = Inr (ir_proof resp)" by simp
qed

lemma issue_Some:
  assumes iss: "issue L I keyId request version = Inr (Some resp)"
    and key: "map_of (keys I) keyId = Some keyPair"
  shows "resp =
     \<lparr>ir_keyID = keyId,
      ir_signed = spec_signed L (sk_scalar (secretKey keyPair)) (nonces request),
      ir_proof =
        numberToBytes
          (issue_challenge L keyPair (getVersionConfig version) PrivateStateTokenV3VOPRF
             (nonces request)) 48
        @ numberToBytes
          ((ORDER - 1 + issue_challenge L keyPair (getVersionConfig version)
               PrivateStateTokenV3VOPRF (nonces request)
               * sk_scalar (secretKey keyPair)) mod ORDER) 48\<rparr>"
proof -
  note st = issue_stages [OF iss key]
  note nz = generateDLEQProof_Inr [OF st(4)]
  have "Inr (ir_proof resp) =
     generateDLEQProof L keyPair
       (spec_Tstar L keyPair (getVersionConfig version) (nonces request))
       (spec_Zstar L keyPair (getVersionConfig version) (nonces request)) None"
    by (simp add: st(4))
  also have "\<dots> = Inr (numberToBytes
          (issue_challenge L keyPair (getVersionConfig version) PrivateStateTokenV3VOPRF
             (nonces request)) 48
        @ numberToBytes
          ((ORDER - 1 + issue_challenge L keyPair (getVersionConfig version)
               PrivateStateTokenV3VOPRF (nonces request)
               * sk_scalar (secretKey keyPair)) mod ORDER) 48)"
    using nz by (subst generateDLEQProof_valid) (simp_all add: issue_challenge_def
        getVersionConfig_None)
  finally have "ir_proof resp = numberToBytes
          (issue_challenge L keyPair (getVersionConfig version) PrivateStateTokenV3VOPRF
             (nonces request)) 48
        @ numberToBytes
          ((ORDER - 1 + issue_challenge L keyPair (getVersionConfig version)
               PrivateStateTokenV3VOPRF (nonces request)
               * sk_scalar (secretKey keyPair)) mod ORDER) 48"
    by simp
  with st(2,3) show ?thesis by (cases resp) simp
qed

lemma issue_valid:
  assumes key: "map_of (keys I) keyId = Some keyPair"
    and sk: "0 < sk_scalar (secretKey keyPair)" "sk_scalar (secretKey keyPair) < ORDER"
    and nz: "\<forall>i < length (nonces request).
               spec_exponent L (getVersionConfig version)
                 (spec_batch L keyPair (nonces request)) i \<noteq> 0"
    and zs: "\<forall>T \<in> set (nonces request).
               point_mul L (ec_point T) (sk_scalar (secretKey keyPair)) \<noteq> ZERO L"
    and ts: "spec_Tstar L keyPair (getVersionConfig version) (nonces request) \<noteq> ZERO L"
    and zz: "spec_Zstar L keyPair (getVersionConfig version) (nonces request) \<noteq> ZERO L"
    and k0: "point_mul L (BASE L) (ORDER - 1) \<noteq> ZERO L"
    and k1: "point_mul L (spec_Tstar L keyPair (getVersionConfig version) (nonces request))
               (ORDER - 1) \<noteq> ZERO L"
  shows "\<exists>resp. issue L I keyId request version = Inr (Some resp)"
proof -
  let ?sk = "sk_scalar (secretKey keyPair)"
  let ?Ts = "nonces request"
  let ?cfg = "getVersionConfig version"
  let ?es = "issue_exponents L keyPair ?cfg ?Ts"
  have s1: "sign_loop L ?sk ?Ts [] (PublicKey_toBytes (publicKey keyPair)) =
            Inr (spec_signed L ?sk ?Ts, spec_batch L keyPair ?Ts)"
    by (simp add: sign_loop_valid [OF sk zs] spec_batch_def)
  have es: "\<forall>e \<in> set ?es. 0 < e \<and> e < ORDER"
    using nz by (auto simp: issue_exponents_def spec_exponent_def hash_to_field_less)
  have s2: "\<And>Ps. batch_loop L (zip Ps ?es) (ZERO L) = Inr (combination L Ps ?es)"
  proof -
    fix Ps :: "'a list"
    have "\<forall>e \<in> set (map snd (zip Ps ?es)). 0 < e \<and> e < ORDER"
      using es by (auto dest: set_zip_rightD)
    from batch_loop_valid [OF this]
    show "batch_loop L (zip Ps ?es) (ZERO L) = Inr (combination L Ps ?es)"
      by (simp add: combination_def)
  qed
  have bt: "batch_loop L (zip (map ec_point ?Ts) ?es) (ZERO L) = Inr (spec_Tstar L keyPair ?cfg ?Ts)"
    by (simp add: s2 spec_Tstar_def)
  have zb: "batch_loop L (zip (map ec_point (spec_signed L ?sk ?Ts)) ?es) (ZERO L)
            = Inr (spec_Zstar L keyPair ?cfg ?Ts)"
    by (simp add: s2 spec_Zstar_def ec_point_spec_signed)
  show ?thesis
    by (simp add: issue_def key Let_def s1 exponent_loop_spec bt zb
        generateDLEQProof_valid [OF ts zz k0 k1])
qed

text \<open>
  An empty request: the sums stay at the identity, and the proof cannot be generated.
\<close>

lemma issue_empty:
  assumes "map_of (keys I) keyId = Some keyPair" and "nonces request = []"
  shows "issue L I keyId request version = Inl ZeroPoint"
proof -
  have "exponent_loop L (hashTofieldConfig (getVersionConfig version))
          (PublicKey_toBytes (publicKey keyPair)) 0 0 [] = []"
    by (subst exponent_loop.simps) simp
  then show ?thesis
    using assms by (simp add: issue_def Let_def generateDLEQProof_ZERO)
qed

section \<open>Facts about the instance\<close>

lemma zn_key: "map_of (keys zn_issuer) 0 = Some zn_keyPair"
  by (simp add: zn_issuer_def Issuer_new_def zn_keyPair_def)

lemma zn_sk: "0 < sk_scalar (secretKey zn_keyPair)" "sk_scalar (secretKey zn_keyPair) < ORDER"
  by (simp_all add: zn_keyPair_def ORDER_def)

lemma zn_sk_value: "sk_scalar (secretKey zn_keyPair) = ORDER - 1"
  by (simp add: zn_keyPair_def)

lemma zn_hash_to_field_nonzero: "hash_to_field zn_env msg (hashTofieldConfig config) \<noteq> 0"
proof -
  let ?x = "(length msg + length (hashToScalarDST config) + zn_hash_tag (vc_hash config)) mod 1000"
  have "?x < 1000" by simp
  then have "1 + ?x < ORDER" by (simp add: ORDER_def)
  then have "(1 + ?x) mod ORDER = 1 + ?x" by (rule mod_less)
  then show ?thesis
    by (simp add: hash_to_field_def hashTofieldConfig_def zn_env_def)
qed

lemma zn_exponent_nonzero: "spec_exponent zn_env config B i \<noteq> 0"
  by (simp add: spec_exponent_def zn_hash_to_field_nonzero)

lemma zn_xmd_os2ip:
  "xmd_os2ip zn_env options msg =
     1 + (length msg + length (h_DST options) + zn_hash_tag (h_hash options)) mod 1000"
  by (simp add: zn_env_def)

lemma zn_toRawBytes_length: "length (toRawBytes zn_env P) = 97"
  by (simp add: zn_env_def)


lemma zn_point_mul: "point_mul zn_env P k = (P * k) mod ORDER"
  by (simp add: zn_env_def)

lemma zn_point_add: "point_add zn_env P Q = (P + Q) mod ORDER"
  by (simp add: zn_env_def)

lemma zn_ZERO: "ZERO zn_env = 0"
  by (simp add: zn_env_def)

lemma zn_BASE: "BASE zn_env = 1"
  by (simp add: zn_env_def)

lemma ec_point_zn_point: "ec_point (zn_point P) = P"
  by (simp add: zn_point_def)

lemma ec_value_zn_point: "ec_value (zn_point P) = toRawBytes zn_env P"
  by (simp add: zn_point_def)

lemma zn_spec_batch_length:
  "length (spec_batch zn_env zn_keyPair [zn_point 2, zn_point 5]) = 485"
  by (simp add: spec_batch_def PublicKey_toBytes_def BYTES_def ec_value_zn_point
      zn_toRawBytes_length)

lemma zn_exponents_V3:
  "issue_exponents zn_env zn_keyPair PrivateStateTokenV3VOPRF [zn_point 2, zn_point 5] = [55, 55]"
  by (simp add: issue_exponents_def spec_exponent_def hash_to_field_def zn_spec_batch_length
      stringToBytes_def hashTofieldConfig_def PrivateStateTokenV3VOPRF_def zn_xmd_os2ip
      zn_hash_tag_def ORDER_def upt_rec)

lemma zn_exponents_V1:
  "issue_exponents zn_env zn_keyPair PrivateStateTokenV1VOPRF [zn_point 2, zn_point 5] = [917, 917]"
  by (simp add: issue_exponents_def spec_exponent_def hash_to_field_def zn_spec_batch_length
      stringToBytes_def hashTofieldConfig_def PrivateStateTokenV1VOPRF_def zn_xmd_os2ip
      zn_hash_tag_def ORDER_def upt_rec)

lemma zn_stars_V3:
  "spec_Tstar zn_env zn_keyPair PrivateStateTokenV3VOPRF [zn_point 2, zn_point 5] = 385"
  "spec_Zstar zn_env zn_keyPair PrivateStateTokenV3VOPRF [zn_point 2, zn_point 5] = ORDER - 385"
  by (simp_all add: spec_Tstar_def spec_Zstar_def zn_exponents_V3 combination_def
      ec_point_zn_point zn_point_mul zn_point_add zn_ZERO zn_sk_value ORDER_def)

lemma zn_stars_V1:
  "spec_Tstar zn_env zn_keyPair PrivateStateTokenV1VOPRF [zn_point 2, zn_point 5] = 6419"
  "spec_Zstar zn_env zn_keyPair PrivateStateTokenV1VOPRF [zn_point 2, zn_point 5] = ORDER - 6419"
  by (simp_all add: spec_Tstar_def spec_Zstar_def zn_exponents_V1 combination_def
      ec_point_zn_point zn_point_mul zn_point_add zn_ZERO zn_sk_value ORDER_def)

lemma zn_signed_nonzero:
  "\<forall>T \<in> set (nonces \<lparr>nonces = [zn_point 2, zn_point 5]\<rparr>).
     point_mul zn_env (ec_point T) (sk_scalar (secretKey zn_keyPair)) \<noteq> ZERO zn_env"
  by (simp add: ec_point_zn_point zn_point_mul zn_ZERO zn_sk_value ORDER_def)

lemma zn_issue_Some_V3:
  "\<exists>resp. issue zn_env zn_issuer 0 \<lparr>nonces = [zn_point 2, zn_point 5]\<rparr> None = Inr (Some resp)"
  by (rule issue_valid [OF zn_key zn_sk _ zn_signed_nonzero])
     (simp_all add: zn_exponent_nonzero getVersionConfig_None zn_stars_V3 zn_point_mul zn_ZERO
        zn_BASE ORDER_def)

lemma zn_issue_Some_V1:
  "\<exists>resp. issue zn_env zn_issuer 0 \<lparr>nonces = [zn_point 2, zn_point 5]\<rparr>
     (Some ''PrivateStateTokenV1VOPRF'') = Inr (Some resp)"
  by (rule issue_valid [OF zn_key zn_sk _ zn_signed_nonzero])
     (simp_all add: zn_exponent_nonzero getVersionConfig_V1 zn_stars_V1 zn_point_mul zn_ZERO
        zn_BASE ORDER_def)

section \<open>Issuance signs every nonce\<close>

text \<open>
  Claim C1, as amended. For a key pair held under \<open>keyId\<close> whose secret scalar is a
  valid scalar (\<open>0 < sk < ORDER\<close>) and a sequence of input points, \<^verbatim>\<open>issue\<close> returns
  an \<^verbatim>\<open>IssueResponse\<close> for that key whose signed list has one entry for each input
  nonce, in the order of the request, with \<open>signed[i] = sk \<cdot> T\<^sub>i\<close>, provided the library
  accepts what the engine hands it: no batch coefficient \<open>e\<^sub>i\<close> is zero (it refuses to
  multiply by zero), and none of the points that are encoded is the identity (it
  refuses to encode it), namely the \<open>sk \<cdot> T\<^sub>i\<close>, the combinations \<open>T\<^sup>*\<close> and \<open>Z\<^sup>*\<close>, and
  \<open>r \<cdot> G\<close> and \<open>r \<cdot> T\<^sup>*\<close> for the proof nonce \<open>r\<close>. For an empty request \<open>T\<^sup>*\<close> is the
  identity, so the sequence is not empty.
\<close>

theorem issue_signs_pointwise:
  assumes "map_of (keys I) keyId = Some keyPair"
    and "0 < sk_scalar (secretKey keyPair)"
    and "sk_scalar (secretKey keyPair) < ORDER"
    and "\<forall>i < length (nonces request).
           spec_exponent L (getVersionConfig version)
             (spec_batch L keyPair (nonces request)) i \<noteq> 0"
    and "\<forall>T \<in> set (nonces request).
           point_mul L (ec_point T) (sk_scalar (secretKey keyPair)) \<noteq> ZERO L"
    and "spec_Tstar L keyPair (getVersionConfig version) (nonces request) \<noteq> ZERO L"
    and "spec_Zstar L keyPair (getVersionConfig version) (nonces request) \<noteq> ZERO L"
    and "point_mul L (BASE L) (ORDER - 1) \<noteq> ZERO L"
    and "point_mul L (spec_Tstar L keyPair (getVersionConfig version) (nonces request))
           (ORDER - 1) \<noteq> ZERO L"
  shows "\<exists>resp. issue L I keyId request version = Inr (Some resp)
           \<and> ir_keyID resp = keyId
           \<and> nonces request \<noteq> []
           \<and> length (ir_signed resp) = length (nonces request)
           \<and> map ec_point (ir_signed resp) =
               map (\<lambda>T. point_mul L (ec_point T) (sk_scalar (secretKey keyPair)))
                 (nonces request)
           \<and> (\<forall>i < length (nonces request).
                 ec_point (ir_signed resp ! i) =
                   point_mul L (ec_point (nonces request ! i)) (sk_scalar (secretKey keyPair))
               \<and> ec_value (ir_signed resp ! i) = toRawBytes L (ec_point (ir_signed resp ! i)))"
proof -
  from issue_valid [OF assms] obtain resp where
    r: "issue L I keyId request version = Inr (Some resp)" by blast
  note st = issue_stages [OF r assms(1)]
  have ne: "nonces request \<noteq> []"
    using assms(6) by (auto simp: spec_Tstar_Nil)
  from r st(2,3) ne show ?thesis
    by (auto simp: spec_signed_def comp_def)
qed

theorem issue_signs_pointwise_witness:
  "\<exists>resp. issue zn_env zn_issuer 0 \<lparr>nonces = [zn_point 2, zn_point 5]\<rparr> None = Inr (Some resp)
     \<and> map ec_point (ir_signed resp) = [ORDER - 2, ORDER - 5]"
proof -
  let ?rq = "\<lparr>nonces = [zn_point 2, zn_point 5]\<rparr>"
  have nz: "\<forall>i < length (nonces ?rq).
           spec_exponent zn_env (getVersionConfig None)
             (spec_batch zn_env zn_keyPair (nonces ?rq)) i \<noteq> 0"
    by (simp add: zn_exponent_nonzero)
  have ts: "spec_Tstar zn_env zn_keyPair (getVersionConfig None) (nonces ?rq) \<noteq> ZERO zn_env"
    by (simp add: getVersionConfig_None zn_stars_V3 zn_ZERO)
  have zz: "spec_Zstar zn_env zn_keyPair (getVersionConfig None) (nonces ?rq) \<noteq> ZERO zn_env"
    by (simp add: getVersionConfig_None zn_stars_V3 zn_ZERO ORDER_def)
  have k0: "point_mul zn_env (BASE zn_env) (ORDER - 1) \<noteq> ZERO zn_env"
    by (simp add: zn_point_mul zn_BASE zn_ZERO ORDER_def)
  have k1: "point_mul zn_env (spec_Tstar zn_env zn_keyPair (getVersionConfig None) (nonces ?rq))
              (ORDER - 1) \<noteq> ZERO zn_env"
    by (simp add: getVersionConfig_None zn_stars_V3 zn_point_mul zn_ZERO ORDER_def)
  from issue_signs_pointwise [OF zn_key zn_sk nz zn_signed_nonzero ts zz k0 k1] obtain resp where
    r: "issue zn_env zn_issuer 0 ?rq None = Inr (Some resp)"
    and m: "map ec_point (ir_signed resp) =
       map (\<lambda>T. point_mul zn_env (ec_point T) (sk_scalar (secretKey zn_keyPair)))
         (nonces ?rq)"
    by blast
  have "map ec_point (ir_signed resp) = [ORDER - 2, ORDER - 5]"
    unfolding m
    by (simp add: ec_point_zn_point zn_point_mul zn_keyPair_def ORDER_def)
  with r show ?thesis by (intro exI [of _ resp]) simp
qed

text \<open>
  Claim C1 as stated, for every sequence of input points, fails for the empty one:
  \<^verbatim>\<open>issue\<close> does not return a response with an empty signed list, it fails when the
  proof is generated.
\<close>

theorem issue_empty_request_counterexample:
  "issue zn_env zn_issuer 0 \<lparr>nonces = []\<rparr> None = Inl ZeroPoint"
  by (rule issue_empty [OF zn_key]) simp

section \<open>Redemption\<close>



section \<open>The challenge of the proof\<close>

text \<open>
  Claim C3 says that the DLEQ challenge is computed with the hash and the
  \<^verbatim>\<open>hashToScalarDST\<close> of the version given to \<^verbatim>\<open>issue\<close>. The code does not do
  that: \<^verbatim>\<open>issue\<close> calls \<^verbatim>\<open>#generateDLEQProof\<close> without its \<^verbatim>\<open>version\<close>
  parameter, which then takes its default. Whenever an issuance under
  \<^verbatim>\<open>PrivateStateTokenV1VOPRF\<close> returns a response, the first 48 bytes of its proof
  encode the challenge computed with SHA-512 and the V3 \<^verbatim>\<open>HashToScalar\<close> DST, over
  the transcript \<open>"DLEQ\0" \<parallel> pk \<parallel> T\<^sup>* \<parallel> Z\<^sup>* \<parallel> k0 \<parallel> k1\<close>. (The batch coefficients inside
  \<open>T\<^sup>*\<close> and \<open>Z\<^sup>*\<close> do follow the version.)
\<close>

theorem issue_V1_challenge_uses_V3:
  assumes "issue L I keyId request (Some ''PrivateStateTokenV1VOPRF'') = Inr (Some resp)"
    and "map_of (keys I) keyId = Some keyPair"
  shows "take 48 (ir_proof resp) =
     numberToBytes
       (hash_to_field L
          (stringToBytes (''DLEQ'' @ [CHR 0x00])
             @ PublicKey_toBytes (publicKey keyPair)
             @ toRawBytes L (spec_Tstar L keyPair PrivateStateTokenV1VOPRF (nonces request))
             @ toRawBytes L (spec_Zstar L keyPair PrivateStateTokenV1VOPRF (nonces request))
             @ toRawBytes L (point_mul L (BASE L) (ORDER - 1))
             @ toRawBytes L
                 (point_mul L (spec_Tstar L keyPair PrivateStateTokenV1VOPRF (nonces request))
                    (ORDER - 1)))
          \<lparr>h_DST = ''TrustToken VOPRF Experiment V2 HashToScalar'' @ [CHR 0x00],
           h_m = 1, h_p = ORDER, h_k = 192, h_expand = ''xmd'', h_hash = sha512\<rparr>) 48"
proof -
  note e = issue_Some [OF assms]
  have "ir_proof resp =
     numberToBytes
       (issue_challenge L keyPair PrivateStateTokenV1VOPRF PrivateStateTokenV3VOPRF
          (nonces request)) 48
     @ numberToBytes
       ((ORDER - 1 + issue_challenge L keyPair PrivateStateTokenV1VOPRF
            PrivateStateTokenV3VOPRF (nonces request)
            * sk_scalar (secretKey keyPair)) mod ORDER) 48"
    by (subst e) (simp add: getVersionConfig_V1)
  then show ?thesis
    by (simp add: issue_challenge_def dleq_challenge_def hashTofieldConfig_def
        PrivateStateTokenV3VOPRF_def writeString_def)
qed

theorem issue_V1_challenge_uses_V3_witness:
  "\<exists>resp. issue zn_env zn_issuer 0 \<lparr>nonces = [zn_point 2, zn_point 5]\<rparr>
       (Some ''PrivateStateTokenV1VOPRF'') = Inr (Some resp)
     \<and> bytesToNumber (take 48 (ir_proof resp)) = 47
     \<and> issue_challenge zn_env zn_keyPair PrivateStateTokenV1VOPRF PrivateStateTokenV1VOPRF
         [zn_point 2, zn_point 5] = 909"
proof -
  let ?rq = "\<lparr>nonces = [zn_point 2, zn_point 5]\<rparr>"
  from zn_issue_Some_V1 obtain resp where
    r: "issue zn_env zn_issuer 0 ?rq (Some ''PrivateStateTokenV1VOPRF'') = Inr (Some resp)"
    by blast
  have len: "\<And>P. length (toRawBytes zn_env P) = 97" by (simp add: zn_env_def)
  have c3: "bytesToNumber (take 48 (ir_proof resp)) = 47"
    unfolding issue_V1_challenge_uses_V3 [OF r zn_key]
    by (simp add: bytesToNumber_numberToBytes hash_to_field_def len stringToBytes_def
        PublicKey_toBytes_def BYTES_def zn_hash_tag_def)
       (simp add: zn_env_def zn_hash_tag_def ORDER_def)
  have c1: "issue_challenge zn_env zn_keyPair PrivateStateTokenV1VOPRF PrivateStateTokenV1VOPRF
         [zn_point 2, zn_point 5] = 909"
    by (simp add: issue_challenge_def dleq_challenge_def hash_to_field_def len
        hashTofieldConfig_def PrivateStateTokenV1VOPRF_def writeString_def stringToBytes_def
        PublicKey_toBytes_def BYTES_def)
       (simp add: zn_env_def zn_hash_tag_def ORDER_def)
  from r c3 c1 show ?thesis by (intro exI [of _ resp]) simp
qed

section \<open>Unknown keys\<close>

text \<open>
  Claim C4 says that an unknown key id makes \<^verbatim>\<open>issue\<close> return \<^verbatim>\<open>null\<close> and
  \<^verbatim>\<open>redeem\<close> return a rejection, and nothing else. For \<^verbatim>\<open>issue\<close> this holds, and
  the \<^verbatim>\<open>null\<close> is not a response with an empty signed list. For
  \<^verbatim>\<open>redeem\<close> it does not: the optional chaining yields \<^verbatim>\<open>undefined\<close> for the
  scalar, the library is asked to multiply by it, and its argument check raises an
  exception instead of the \<^verbatim>\<open>null\<close> of a rejection.
\<close>

theorem unknown_key_issue_null_redeem_throws:
  assumes "map_of (keys I) keyId = None"
  shows "issue L I keyId request version = Inr None
         \<and> issue L I keyId request version
             \<noteq> Inr (Some \<lparr>ir_keyID = keyId, ir_signed = [], ir_proof = prf\<rparr>)
         \<and> redeem L I (request'\<lparr>rq_keyID := keyId\<rparr>) redemptionRecord version
             = Inl InvalidScalar"
  using assms by (simp add: issue_def redeem_def Let_def multiply_def)

theorem unknown_key_issue_null_redeem_throws_witness:
  "issue zn_env zn_issuer 99 \<lparr>nonces = [zn_point 2]\<rparr> None = Inr None
   \<and> redeem zn_env zn_issuer
       \<lparr>rq_keyID = 99, rq_nonce = replicate 64 0, rq_point = zn_point 2, rq_clientData = []\<rparr>
       (RecordArray [1, 2, 3]) None = Inl InvalidScalar"
proof -
  have k: "map_of (keys zn_issuer) 99 = None"
    by (simp add: zn_issuer_def Issuer_new_def zn_keyPair_def)
  show ?thesis
    using unknown_key_issue_null_redeem_throws [OF k,
        where L = zn_env and request = "\<lparr>nonces = [zn_point 2]\<rparr>" and version = None
          and request' = "\<lparr>rq_keyID = 0, rq_nonce = replicate 64 0, rq_point = zn_point 2,
                           rq_clientData = []\<rparr>"
          and redemptionRecord = "RecordArray [1, 2, 3]"]
    by simp
qed

section \<open>The format of the proof\<close>

text \<open>
  Claim C5. Whenever \<^verbatim>\<open>issue\<close> returns a response, its proof is exactly 96 bytes:
  the challenge \<open>c\<close> as a 48-byte big-endian scalar followed by
  \<open>u = (r + c \<cdot> sk) mod ORDER\<close> as a 48-byte big-endian scalar, where \<open>r = ORDER - 1\<close>
  is the proof nonce of the source; both scalars are read back from their halves. And
  \<^verbatim>\<open>IssueResponse.toBytes\<close> writes the count, the key id, the signed points, then the
  two bytes \<open>0, 96\<close> of the proof length, then the proof.
\<close>

theorem proof_is_96_bytes:
  assumes "issue L I keyId request version = Inr (Some resp)"
    and "map_of (keys I) keyId = Some keyPair"
  shows "\<exists>c u. c = issue_challenge L keyPair (getVersionConfig version)
                    PrivateStateTokenV3VOPRF (nonces request)
           \<and> u = (ORDER - 1 + c * sk_scalar (secretKey keyPair)) mod ORDER
           \<and> ir_proof resp = numberToBytes c 48 @ numberToBytes u 48
           \<and> bytesToNumber (take 48 (ir_proof resp)) = c
           \<and> bytesToNumber (drop 48 (ir_proof resp)) = u
           \<and> length (ir_proof resp) = 96
           \<and> IssueResponse_toBytes resp =
               writeInt (length (ir_signed resp)) 2 @ writeInt keyId 4
                 @ concat (map ec_value (ir_signed resp))
                 @ [0, 96] @ ir_proof resp"
proof -
  let ?c = "issue_challenge L keyPair (getVersionConfig version)
              PrivateStateTokenV3VOPRF (nonces request)"
  let ?u = "(ORDER - 1 + ?c * sk_scalar (secretKey keyPair)) mod ORDER"
  note e = issue_Some [OF assms]
  have p: "ir_proof resp = numberToBytes ?c 48 @ numberToBytes ?u 48"
    by (subst e) simp
  have k: "ir_keyID resp = keyId"
    by (subst e) simp
  have c: "?c < ORDER"
    by (simp add: issue_challenge_def dleq_challenge_def hash_to_field_less)
  have u: "?u < ORDER"
    by (simp add: ORDER_pos)
  have len: "length (ir_proof resp) = 96"
    by (simp add: p)
  have t: "IssueResponse_toBytes resp =
      writeInt (length (ir_signed resp)) 2 @ writeInt keyId 4
        @ concat (map ec_value (ir_signed resp)) @ [0, 96] @ ir_proof resp"
    by (simp add: IssueResponse_toBytes_def IssueResponse_issued_def len k writeInt_def [of 96]
        numberToBytes_96_2 ECPoint_toBytes_def [abs_def])
  show ?thesis
    using p len t scalar_roundtrip [OF c] scalar_roundtrip [OF u] by simp
qed

theorem proof_is_96_bytes_witness:
  "\<exists>resp. issue zn_env zn_issuer 0 \<lparr>nonces = [zn_point 2, zn_point 5]\<rparr> None = Inr (Some resp)
     \<and> length (ir_proof resp) = 96
     \<and> length (IssueResponse_toBytes resp) = 298"
proof -
  let ?rq = "\<lparr>nonces = [zn_point 2, zn_point 5]\<rparr>"
  from zn_issue_Some_V3 obtain resp where
    r: "issue zn_env zn_issuer 0 ?rq None = Inr (Some resp)"
    by blast
  from proof_is_96_bytes [OF r zn_key] have
    l: "length (ir_proof resp) = 96"
    and t: "IssueResponse_toBytes resp =
               writeInt (length (ir_signed resp)) 2 @ writeInt 0 4
                 @ concat (map ec_value (ir_signed resp))
                 @ [0, 96] @ ir_proof resp"
    by blast+
  have s: "ir_signed resp = spec_signed zn_env (sk_scalar (secretKey zn_keyPair)) (nonces ?rq)"
    by (subst issue_Some [OF r zn_key]) simp
  have "length (IssueResponse_toBytes resp) = 298"
    unfolding t by (simp add: l s writeInt_def spec_signed_def zn_toRawBytes_length)
  with r l show ?thesis by (intro exI [of _ resp]) simp
qed

section \<open>Expiry normalisation\<close>

text \<open>
  Claim C9 says that the stored expiry is \<open>expiry \<cdot> 10\<^sup>k\<close> for the least \<open>k\<close> among
  \<open>0, 3, \<dots>, 15\<close> that gives at least 16 digits, and that an expiry of 16 digits is
  stored unchanged. The constructor counts digits with
  \<^verbatim>\<open>Math.ceil(Math.log10(expiry))\<close>, which is one short at the exact powers of ten:
  \<open>10\<^sup>1\<^sup>5\<close> has 16 digits and is stored as \<open>10\<^sup>1\<^sup>8\<close>, and \<open>1\<close> is scaled by \<open>10\<^sup>1\<^sup>8\<close>,
  an exponent outside \<open>0, 3, \<dots>, 15\<close>.
\<close>

theorem expiry_power_of_ten_rescaled:
  "kp_expiry (KeyPair_new now i pk sk 1000000000000000) = 1000000000000000000
   \<and> kp_expiry (KeyPair_new now i pk sk 1) = 10 ^ 18
   \<and> sanitize_exponent 1 = 18"
  by (simp add: KeyPair_new_def sanitize_expiry_def sanitize_exponent_int Let_def
      ceil_log10_Suc0 ceil_log10_e15)

section \<open>Unrecognized versions\<close>

text \<open>
  Claim C10. For every version argument other than \<^verbatim>\<open>"PrivateStateTokenV1VOPRF"\<close>
  and \<^verbatim>\<open>"PrivateStateTokenV3VOPRF"\<close>, the absent argument included,
  \<^verbatim>\<open>getVersionConfig\<close> returns the V3 configuration, and \<^verbatim>\<open>issue\<close>, \<^verbatim>\<open>redeem\<close>
  and \<^verbatim>\<open>keyCommitment\<close> return what they return under V3.
\<close>

theorem unrecognized_version_is_V3:
  assumes "version \<noteq> Some ''PrivateStateTokenV1VOPRF''"
    and "version \<noteq> Some ''PrivateStateTokenV3VOPRF''"
  shows "getVersionConfig version = PrivateStateTokenV3VOPRF
         \<and> issue L I keyId request version
             = issue L I keyId request (Some ''PrivateStateTokenV3VOPRF'')
         \<and> redeem L I request' redemptionRecord version
             = redeem L I request' redemptionRecord (Some ''PrivateStateTokenV3VOPRF'')
         \<and> keyCommitment L I version = keyCommitment L I (Some ''PrivateStateTokenV3VOPRF'')"
proof -
  have g: "getVersionConfig version = getVersionConfig (Some ''PrivateStateTokenV3VOPRF'')"
    using assms by (simp add: getVersionConfig_other getVersionConfig_V3)
  show ?thesis
    unfolding issue_def redeem_def keyCommitment_def g
    by (simp add: getVersionConfig_V3)
qed

theorem unrecognized_version_is_V3_witness:
  "getVersionConfig (Some ''PrivateStateTokenV2VOPRF'') = PrivateStateTokenV3VOPRF
   \<and> getVersionConfig None = PrivateStateTokenV3VOPRF
   \<and> issue zn_env zn_issuer 0 \<lparr>nonces = [zn_point 2, zn_point 5]\<rparr>
        (Some ''PrivateStateTokenV2VOPRF'')
       = issue zn_env zn_issuer 0 \<lparr>nonces = [zn_point 2, zn_point 5]\<rparr>
        (Some ''PrivateStateTokenV3VOPRF'')
   \<and> keyCommitment zn_env zn_issuer None
       = keyCommitment zn_env zn_issuer (Some ''PrivateStateTokenV3VOPRF'')"
proof -
  have a: "Some ''PrivateStateTokenV2VOPRF'' \<noteq> Some ''PrivateStateTokenV1VOPRF''"
    and b: "Some ''PrivateStateTokenV2VOPRF'' \<noteq> Some ''PrivateStateTokenV3VOPRF''"
    and c: "(None :: string option) \<noteq> Some ''PrivateStateTokenV1VOPRF''"
    and d: "(None :: string option) \<noteq> Some ''PrivateStateTokenV3VOPRF''"
    by simp_all
  show ?thesis
    using unrecognized_version_is_V3 [OF a b] unrecognized_version_is_V3 [OF c d]
    by blast
qed

section \<open>Decoding requests\<close>

text \<open>
  One round of the loop of \<^verbatim>\<open>IssueRequest.from\<close>, case by case; and what the loop
  returns when it returns: exactly \<open>count\<close> points, never fewer.
\<close>

lemma point_length: "Suc (2 * BYTES) = 97" "BYTES * 2 + 1 = 97" "Suc (BYTES * 2) = 97"
  by (simp_all add: BYTES_def)

lemma from_loop_done: "\<not> length acc < count \<Longrightarrow> from_loop L count buf acc = Inr acc"
  by (subst from_loop.simps) simp

lemma from_loop_short:
  "length acc < count \<Longrightarrow> length buf < 97 \<Longrightarrow> from_loop L count buf acc = Inl DecodeError"
  by (subst from_loop.simps) (simp add: readBytes_def point_length)

lemma from_loop_valid:
  "length acc < count \<Longrightarrow> length v = 97 \<Longrightarrow> fromHex L v = Some P \<Longrightarrow>
   from_loop L count (v @ rest) acc =
     from_loop L count rest (acc @ [\<lparr>ec_value = v, ec_point = P\<rparr>])"
  by (subst from_loop.simps) (simp add: readBytes_append point_length ECPoint_of_bytes_def)

lemma from_loop_invalid:
  "length acc < count \<Longrightarrow> length v = 97 \<Longrightarrow> fromHex L v = None \<Longrightarrow>
   from_loop L count (v @ rest) acc = from_loop L count rest acc"
  by (subst from_loop.simps) (simp add: readBytes_append point_length ECPoint_of_bytes_def)

lemma from_loop_length:
  "from_loop L count buf acc = Inr ns \<Longrightarrow> length acc \<le> count \<Longrightarrow> length ns = count"
proof (induction L count buf acc rule: from_loop.induct)
  case (1 L count buf acc)
  show ?case
  proof (cases "length acc < count")
    case False
    with "1.prems" show ?thesis by (simp add: from_loop_done)
  next
    case True
    from True "1.prems"(1) obtain v rest where
      rb: "readBytes (Suc (2 * BYTES)) buf = Inr (v, rest)"
      by (subst (asm) from_loop.simps) (auto split: sum.splits)
    show ?thesis
    proof (cases "ECPoint_of_bytes L v")
      case (Inl e)
      with True rb "1.prems"(1) have "from_loop L count rest acc = Inr ns"
        by (subst (asm) from_loop.simps) simp
      from "1.IH"(1) [OF True rb refl Inl this] "1.prems"(2) show ?thesis by simp
    next
      case (Inr pt)
      with True rb "1.prems"(1) have "from_loop L count rest (acc @ [pt]) = Inr ns"
        by (subst (asm) from_loop.simps) simp
      from "1.IH"(2) [OF True rb refl Inr this] True show ?thesis by simp
    qed
  qed
qed

lemma IssueRequest_from_count:
  assumes "IssueRequest_from L s = Inr r"
  shows "readInt 2 (b64decode L s) = Inr (length (nonces r), drop 2 (b64decode L s))"
proof -
  from assms obtain count rest ns where
    ri: "readInt 2 (b64decode L s) = Inr (count, rest)"
    and fl: "from_loop L count rest [] = Inr ns" and r: "r = \<lparr>nonces = ns\<rparr>"
    by (auto simp: IssueRequest_from_def split: sum.splits)
  from from_loop_length [OF fl] have "length ns = count" by simp
  moreover from ri have "rest = drop 2 (b64decode L s)"
    by (auto simp: readInt_def readBytes_def split: if_splits)
  ultimately show ?thesis using ri r by simp
qed

lemma ECPoint_eta: "\<lparr>ec_value = ec_value T, ec_point = ec_point T\<rparr> = T"
  by (cases T) simp

lemma from_loop_roundtrip:
  assumes "\<forall>T \<in> set Ts. length (ec_value T) = 97 \<and> fromHex L (ec_value T) = Some (ec_point T)"
  shows "from_loop L (length acc + length Ts) (concat (map ec_value Ts)) acc = Inr (acc @ Ts)"
  using assms
proof (induction Ts arbitrary: acc)
  case Nil
  then show ?case by (simp add: from_loop_done)
next
  case (Cons T Ts)
  have "from_loop L (length acc + length (T # Ts)) (ec_value T @ concat (map ec_value Ts)) acc =
        from_loop L (length acc + length (T # Ts)) (concat (map ec_value Ts))
          (acc @ [\<lparr>ec_value = ec_value T, ec_point = ec_point T\<rparr>])"
    using Cons.prems by (intro from_loop_valid) simp_all
  also have "\<dots> = from_loop L (length (acc @ [T]) + length Ts) (concat (map ec_value Ts))
          (acc @ [T])"
    by (simp add: ECPoint_eta)
  also have "\<dots> = Inr ((acc @ [T]) @ Ts)"
    using Cons.prems by (intro Cons.IH) simp
  finally show ?case by simp
qed

lemma IssueRequest_roundtrip:
  assumes "\<forall>bs. b64decode L (b64encode L bs) = bs"
    and "\<forall>T \<in> set (nonces m). length (ec_value T) = 97
           \<and> fromHex L (ec_value T) = Some (ec_point T)"
    and "length (nonces m) < 65536"
  shows "IssueRequest_from L (IssueRequest_toString L m) = Inr m"
proof -
  have "from_loop L (length (nonces m)) (concat (map ec_value (nonces m))) [] = Inr (nonces m)"
    using from_loop_roundtrip [OF assms(2), of "[]"] by simp
  with assms(1,3) show ?thesis
    by (simp add: IssueRequest_from_def IssueRequest_toString_def IssueRequest_toBytes_def
        IssueRequest_count_def readInt_writeInt ECPoint_toBytes_def [abs_def])
qed

lemma readBytes_take:
  "k \<le> length bs \<Longrightarrow> readBytes k bs = Inr (take k bs, drop k bs)"
  by (simp add: readBytes_def)

lemma RedeemRequest_decode_encode:
  assumes "\<forall>bs. b64decode L (b64encode L bs) = bs"
    and "length (rq_nonce r) = 64"
    and "length (ec_value (rq_point r)) = 97"
    and "fromHex L (ec_value (rq_point r)) = Some (ec_point (rq_point r))"
  shows "RedeemRequest_from L (RedeemRequest_toString L r) =
     Inr (r\<lparr>rq_keyID := rq_keyID r mod 2 ^ 32,
            rq_clientData := take (length (rq_clientData r) mod 2 ^ 16) (rq_clientData r)\<rparr>)"
proof -
  have k: "length (rq_clientData r) mod 65536 \<le> length (rq_clientData r)"
    by (rule mod_less_eq_dividend)
  have pt: "ECPoint_of_bytes L (ec_value (rq_point r)) = Inr (rq_point r)"
    by (simp add: ECPoint_of_bytes_def assms(4))
  show ?thesis
    using assms(1,2,3)
    by (simp add: RedeemRequest_from_def RedeemRequest_toString_def RedeemRequest_toBytes_def
        readInt_writeInt readBytes_append NONCE_LENGTH_def point_length ECPoint_toBytes_def pt
        readBytes_take [OF k])
qed

lemma RedeemRequest_from_clientData:
  assumes "RedeemRequest_from L s = Inr r"
  shows "length (rq_clientData r) < 65536"
proof -
  from assms obtain b4 len b5 cd b6 where
    ri: "readInt 2 b4 = Inr (len, b5)" and rb: "readBytes len b5 = Inr (cd, b6)"
    and cd: "rq_clientData r = cd"
    by (auto simp: RedeemRequest_from_def split: sum.splits)
  from ri have "len < 256 ^ 2"
    using bytesToNumber_less [of "take 2 b4"]
    by (auto simp: readInt_def readBytes_def split: if_splits)
  moreover from rb have "length cd = len"
    by (auto simp: readBytes_def split: if_splits)
  ultimately show ?thesis using cd by simp
qed

lemma zn_b64_roundtrip: "b64decode zn_env (b64encode zn_env bs) = bs"
proof -
  have "unat x mod 256 = unat x" for x :: byte
    using unsigned_less [of x, where ?'a = nat] by simp
  then show ?thesis
    by (simp add: zn_env_def comp_def)
qed

lemma zn_fromHex_toRawBytes:
  "0 < P \<Longrightarrow> P < ORDER \<Longrightarrow> fromHex zn_env (toRawBytes zn_env P) = Some P"
proof -
  assume p: "0 < P" "P < ORDER"
  then have "P < 256 ^ 96" by (simp add: ORDER_def)
  then have "bytesToNumber (numberToBytes P 96) = P"
    by (rule bytesToNumber_numberToBytes_id)
  with p show ?thesis by (simp add: zn_env_def zn_fromHex_def)
qed

lemma zn_fromHex_zeros: "fromHex zn_env (replicate 97 0) = None"
  by (simp add: zn_env_def zn_fromHex_def)

lemma zn_point_valid:
  "0 < P \<Longrightarrow> P < ORDER \<Longrightarrow>
   length (ec_value (zn_point P)) = 97
   \<and> fromHex zn_env (ec_value (zn_point P)) = Some (ec_point (zn_point P))"
  by (simp add: zn_point_def zn_fromHex_toRawBytes zn_toRawBytes_length)

text \<open>
  Claim C7 says that \<^verbatim>\<open>IssueRequest.from\<close> terminates on every input, drops an
  element that fails point validation and goes on, so that a request of three elements
  whose middle one is not a point decodes to the two valid nonces. The function is
  total here (its termination is proved with its definition, every round consuming
  97 bytes), and the invalid element is dropped. But the loop runs until it has
  collected \<open>count\<close> points, not until it has read \<open>count\<close> elements: after the third
  element it holds two points, asks for a fourth element, and the read fails on the
  exhausted buffer. The request of the claim does not decode at all.
\<close>

theorem from_invalid_middle_point_fails:
  assumes "length b1 = 97" and "length b2 = 97" and "length b3 = 97"
    and "fromHex L b1 = Some P1" and "fromHex L b2 = None" and "fromHex L b3 = Some P3"
    and "b64decode L s = writeInt 3 2 @ b1 @ b2 @ b3"
  shows "IssueRequest_from L s = Inl DecodeError"
proof -
  have "from_loop L 3 (b1 @ b2 @ b3) [] =
        from_loop L 3 (b2 @ b3) [\<lparr>ec_value = b1, ec_point = P1\<rparr>]"
    using from_loop_valid [of "[]" 3 b1 L P1 "b2 @ b3"] assms by simp
  also have "\<dots> = from_loop L 3 b3 [\<lparr>ec_value = b1, ec_point = P1\<rparr>]"
    using from_loop_invalid [of "[\<lparr>ec_value = b1, ec_point = P1\<rparr>]" 3 b2 L b3] assms by simp
  also have "\<dots> = from_loop L 3 []
       [\<lparr>ec_value = b1, ec_point = P1\<rparr>, \<lparr>ec_value = b3, ec_point = P3\<rparr>]"
    using from_loop_valid [of "[\<lparr>ec_value = b1, ec_point = P1\<rparr>]" 3 b3 L P3 "[]"] assms
    by simp
  also have "\<dots> = Inl DecodeError"
    by (rule from_loop_short) simp_all
  finally show ?thesis
    by (simp add: IssueRequest_from_def assms(7) readInt_writeInt)
qed

theorem from_invalid_middle_point_fails_witness:
  "IssueRequest_from zn_env
     (b64encode zn_env
        (writeInt 3 2 @ toRawBytes zn_env 2 @ replicate 97 0 @ toRawBytes zn_env 5))
   = Inl DecodeError"
proof -
  have v2: "fromHex zn_env (toRawBytes zn_env 2) = Some 2"
    by (rule zn_fromHex_toRawBytes) (simp_all add: ORDER_def)
  have v5: "fromHex zn_env (toRawBytes zn_env 5) = Some 5"
    by (rule zn_fromHex_toRawBytes) (simp_all add: ORDER_def)
  show ?thesis
    by (rule from_invalid_middle_point_fails
          [OF zn_toRawBytes_length _ zn_toRawBytes_length v2 zn_fromHex_zeros v5
              zn_b64_roundtrip])
       simp
qed

section \<open>Round trips\<close>

text \<open>
  Claim C8, as amended. With a Base64 codec whose decoder inverts its encoder:
  for every \<^verbatim>\<open>IssueRequest\<close> of valid points (97 bytes that the library accepts as
  the point they stand for) whose count is below \<open>2\<^sup>1\<^sup>6\<close>, decoding its string gives
  the request back; and for every \<^verbatim>\<open>RedeemRequest\<close> with a 64-byte nonce, a valid
  point, a key id below \<open>2\<^sup>3\<^sup>2\<close> and client data shorter than \<open>2\<^sup>1\<^sup>6\<close> bytes, decoding
  its string gives the request back.
\<close>

theorem decode_encode_roundtrip:
  assumes "\<forall>bs. b64decode L (b64encode L bs) = bs"
    and "\<forall>T \<in> set (nonces m). length (ec_value T) = 97
           \<and> fromHex L (ec_value T) = Some (ec_point T)"
    and "length (nonces m) < 2 ^ 16"
    and "length (rq_nonce r) = 64"
    and "length (ec_value (rq_point r)) = 97"
    and "fromHex L (ec_value (rq_point r)) = Some (ec_point (rq_point r))"
    and "rq_keyID r < 2 ^ 32"
    and "length (rq_clientData r) < 2 ^ 16"
  shows "IssueRequest_from L (IssueRequest_toString L m) = Inr m
         \<and> RedeemRequest_from L (RedeemRequest_toString L r) = Inr r"
proof -
  have "IssueRequest_from L (IssueRequest_toString L m) = Inr m"
    using assms(1,2,3) by (intro IssueRequest_roundtrip) simp_all
  moreover have "RedeemRequest_from L (RedeemRequest_toString L r) = Inr r"
    using RedeemRequest_decode_encode [OF assms(1,4,5,6)] assms(7,8) by simp
  ultimately show ?thesis by simp
qed

theorem decode_encode_roundtrip_witness:
  "IssueRequest_from zn_env (IssueRequest_toString zn_env \<lparr>nonces = [zn_point 2, zn_point 5]\<rparr>)
     = Inr \<lparr>nonces = [zn_point 2, zn_point 5]\<rparr>
   \<and> RedeemRequest_from zn_env
       (RedeemRequest_toString zn_env
          \<lparr>rq_keyID = 7, rq_nonce = replicate 64 0, rq_point = zn_point 2,
           rq_clientData = [1, 2, 3]\<rparr>)
     = Inr \<lparr>rq_keyID = 7, rq_nonce = replicate 64 0, rq_point = zn_point 2,
           rq_clientData = [1, 2, 3]\<rparr>"
proof -
  have p2: "length (ec_value (zn_point 2)) = 97
            \<and> fromHex zn_env (ec_value (zn_point 2)) = Some (ec_point (zn_point 2))"
    by (rule zn_point_valid) (simp_all add: ORDER_def)
  have p5: "length (ec_value (zn_point 5)) = 97
            \<and> fromHex zn_env (ec_value (zn_point 5)) = Some (ec_point (zn_point 5))"
    by (rule zn_point_valid) (simp_all add: ORDER_def)
  show ?thesis
    by (rule decode_encode_roundtrip) (simp_all add: zn_b64_roundtrip p2 p5)
qed

text \<open>
  Claim C8 as stated, for every \<^verbatim>\<open>RedeemRequest\<close> with a 64-byte nonce, fails for
  client data of \<open>2\<^sup>1\<^sup>6\<close> bytes: the length prefix has two bytes, so no decoded request
  carries that much.
\<close>

theorem redeem_roundtrip_counterexample:
  "RedeemRequest_from zn_env
     (RedeemRequest_toString zn_env
        \<lparr>rq_keyID = 0, rq_nonce = replicate 64 0, rq_point = zn_point 2,
         rq_clientData = replicate 65536 0\<rparr>)
   \<noteq> Inr \<lparr>rq_keyID = 0, rq_nonce = replicate 64 0, rq_point = zn_point 2,
           rq_clientData = replicate 65536 0\<rparr>"
proof
  assume "RedeemRequest_from zn_env
     (RedeemRequest_toString zn_env
        \<lparr>rq_keyID = 0, rq_nonce = replicate 64 0, rq_point = zn_point 2,
         rq_clientData = replicate 65536 0\<rparr>)
   = Inr \<lparr>rq_keyID = 0, rq_nonce = replicate 64 0, rq_point = zn_point 2,
           rq_clientData = replicate 65536 0\<rparr>"
  from RedeemRequest_from_clientData [OF this] show False by simp
qed

section \<open>The batch coefficients\<close>

text \<open>
  A request that \<^verbatim>\<open>IssueRequest.from\<close> decoded holds valid points in their 97-byte
  encoding: each nonce keeps the 97 bytes that were read, and the library accepted
  them as its point.
\<close>

lemma from_loop_points:
  "from_loop L count buf acc = Inr ns \<Longrightarrow>
   \<forall>T \<in> set acc. length (ec_value T) = 97 \<and> fromHex L (ec_value T) = Some (ec_point T) \<Longrightarrow>
   \<forall>T \<in> set ns. length (ec_value T) = 97 \<and> fromHex L (ec_value T) = Some (ec_point T)"
proof (induction L count buf acc rule: from_loop.induct)
  case (1 L count buf acc)
  show ?case
  proof (cases "length acc < count")
    case False
    with "1.prems" show ?thesis by (simp add: from_loop_done)
  next
    case True
    from True "1.prems"(1) obtain v rest where
      rb: "readBytes (Suc (2 * BYTES)) buf = Inr (v, rest)"
      by (subst (asm) from_loop.simps) (auto split: sum.splits)
    from rb have lv: "length v = 97"
      by (auto simp: readBytes_def point_length split: if_splits)
    show ?thesis
    proof (cases "ECPoint_of_bytes L v")
      case (Inl e)
      with True rb "1.prems"(1) have "from_loop L count rest acc = Inr ns"
        by (subst (asm) from_loop.simps) simp
      from "1.IH"(1) [OF True rb refl Inl this "1.prems"(2)] show ?thesis .
    next
      case (Inr pt)
      with True rb "1.prems"(1) have fl: "from_loop L count rest (acc @ [pt]) = Inr ns"
        by (subst (asm) from_loop.simps) simp
      from Inr lv have "length (ec_value pt) = 97 \<and> fromHex L (ec_value pt) = Some (ec_point pt)"
        by (auto simp: ECPoint_of_bytes_def split: option.splits)
      with "1.prems"(2) have
        "\<forall>T \<in> set (acc @ [pt]).
           length (ec_value T) = 97 \<and> fromHex L (ec_value T) = Some (ec_point T)"
        by simp
      from "1.IH"(2) [OF True rb refl Inr fl this] show ?thesis .
    qed
  qed
qed

lemma IssueRequest_from_points:
  assumes "IssueRequest_from L s = Inr r"
  shows "\<forall>T \<in> set (nonces r).
           length (ec_value T) = 97 \<and> fromHex L (ec_value T) = Some (ec_point T)"
proof -
  from assms obtain count rest ns where
    fl: "from_loop L count rest [] = Inr ns" and r: "r = \<lparr>nonces = ns\<rparr>"
    by (auto simp: IssueRequest_from_def split: sum.splits)
  from from_loop_points [OF fl] r show ?thesis by simp
qed





end
